theory Spec2Isabelle
  imports Complex_Main "HOL-Library.Word" "HOL-Library.AList"
begin

section \<open>JavaScript numbers\<close>

text \<open>
  Amounts, prices and liters are JavaScript numbers. A finite number is modelled by the
  rational it denotes; \<open>NaN\<close> and the two infinities are values of their own, so that
  every comparison with \<open>NaN\<close> is false, as in the source. Signed zero is not
  distinguished. Comparisons, \<open>Math.round\<close>, \<open>Math.ceil\<close> and \<open>Math.floor\<close> are exact
  on doubles and so agree with the model on every double. The quotient, the product and
  the difference of the model are the exact rational ones, where the source rounds the
  result to a double and overflows to an infinity: \<open>1 / 3\<close> is a double close to one
  third, and an amount divided by a price near zero is \<open>Infinity\<close>. The model and the
  source agree where no such rounding changes a result: at the price 5 and an amount
  between 5 and 70000 the rounded quotient \<open>amount / 5\<close> lies on the same side of every
  half-integer as the exact one, the liters are an integer of at most 14000, and the
  product with 5 and the difference from the amount are exact. The theorems on pricing
  are stated at that configuration, the default one, and at no other.
\<close>

datatype jsnum = Num rat | NaN | PosInf | NegInf

fun js_lt :: "jsnum \<Rightarrow> jsnum \<Rightarrow> bool" where
  "js_lt (Num a) (Num b) = (a < b)"
| "js_lt NaN _ = False"
| "js_lt _ NaN = False"
| "js_lt PosInf _ = False"
| "js_lt _ PosInf = True"
| "js_lt NegInf (Num b) = True"
| "js_lt _ NegInf = False"

fun js_le :: "jsnum \<Rightarrow> jsnum \<Rightarrow> bool" where
  "js_le (Num a) (Num b) = (a \<le> b)"
| "js_le NaN _ = False"
| "js_le _ NaN = False"
| "js_le NegInf _ = True"
| "js_le _ PosInf = True"
| "js_le PosInf _ = False"
| "js_le (Num a) NegInf = False"

definition js_gt :: "jsnum \<Rightarrow> jsnum \<Rightarrow> bool" where
  "js_gt a b = js_lt b a"

text \<open>The sign of a number that is not \<open>NaN\<close>: \<open>-1\<close>, \<open>0\<close> or \<open>1\<close>.\<close>

fun js_sign :: "jsnum \<Rightarrow> int" where
  "js_sign (Num a) = (if a < 0 then -1 else if a = 0 then 0 else 1)"
| "js_sign PosInf = 1"
| "js_sign NegInf = -1"
| "js_sign NaN = 0"

definition js_inf :: "int \<Rightarrow> jsnum" where
  "js_inf s = (if s < 0 then NegInf else PosInf)"

fun js_div :: "jsnum \<Rightarrow> jsnum \<Rightarrow> jsnum" where
  "js_div NaN _ = NaN"
| "js_div _ NaN = NaN"
| "js_div (Num a) (Num b) =
     (if b \<noteq> 0 then Num (a / b)
      else if a = 0 then NaN
      else js_inf (js_sign (Num a)))"
| "js_div (Num a) PosInf = Num 0"
| "js_div (Num a) NegInf = Num 0"
| "js_div PosInf (Num b) = js_inf (if b < 0 then -1 else 1)"
| "js_div NegInf (Num b) = js_inf (if b < 0 then 1 else -1)"
| "js_div _ _ = NaN"

fun js_mul :: "jsnum \<Rightarrow> jsnum \<Rightarrow> jsnum" where
  "js_mul NaN _ = NaN"
| "js_mul _ NaN = NaN"
| "js_mul (Num a) (Num b) = Num (a * b)"
| "js_mul x y =
     (if js_sign x = 0 \<or> js_sign y = 0 then NaN else js_inf (js_sign x * js_sign y))"

fun js_sub :: "jsnum \<Rightarrow> jsnum \<Rightarrow> jsnum" where
  "js_sub NaN _ = NaN"
| "js_sub _ NaN = NaN"
| "js_sub (Num a) (Num b) = Num (a - b)"
| "js_sub PosInf PosInf = NaN"
| "js_sub NegInf NegInf = NaN"
| "js_sub PosInf _ = PosInf"
| "js_sub NegInf _ = NegInf"
| "js_sub (Num a) PosInf = NegInf"
| "js_sub (Num a) NegInf = PosInf"

text \<open>
  \<open>Math.round\<close> rounds to the nearest integer, a tie towards plus infinity;
  \<open>Math.ceil\<close> and \<open>Math.floor\<close> are ceiling and floor. All three return \<open>NaN\<close> and
  the infinities unchanged.
\<close>

fun Math_round :: "jsnum \<Rightarrow> jsnum" where
  "Math_round (Num a) = Num (of_int \<lfloor>a + 1 / 2\<rfloor>)"
| "Math_round x = x"

fun Math_ceil :: "jsnum \<Rightarrow> jsnum" where
  "Math_ceil (Num a) = Num (of_int \<lceil>a\<rceil>)"
| "Math_ceil x = x"

fun Math_floor :: "jsnum \<Rightarrow> jsnum" where
  "Math_floor (Num a) = Num (of_int \<lfloor>a\<rfloor>)"
| "Math_floor x = x"

text \<open>Truthiness of a number: \<open>0\<close> and \<open>NaN\<close> are falsy.\<close>

fun js_truthy :: "jsnum \<Rightarrow> bool" where
  "js_truthy (Num a) = (a \<noteq> 0)"
| "js_truthy NaN = False"
| "js_truthy _ = True"

fun js_finite :: "jsnum \<Rightarrow> bool" where
  "js_finite (Num a) = True"
| "js_finite _ = False"

section \<open>Errors\<close>

text \<open>
  Every \<open>throw new AppError(message, statusCode)\<close> of the source is a value
  \<open>AppError message statusCode\<close>. The messages are kept apart by a datatype; the parts a
  template string interpolates are the constructor's arguments. \<open>RangeError\<close> is what
  \<open>crypto.timingSafeEqual\<close> throws on buffers of different length.
\<close>

datatype message =
    AmountAndPricePositive
  | LitersAndPricePositive
  | AmountAtLeast jsnum string
  | AmountCannotExceed jsnum string
  | AmountValidNumber
  | AmountGreaterThan0
  | Joined "message list"
  | RequiredFields
  | OtpSixDigits
  | OtpNotFoundOrExpired
  | OtpHasExpired
  | OtpAlreadyUsed
  | OtpBlocked
  | OtpLockedToStation string string
  | OtpInUseAtStation "string option"
  | InvalidOtpRemaining int
  | InvalidOtp
  | OtpNotFound
  | NoValidFields
  | TransactionNotFound
  | OtpOnlyForCompleted
  | FailedToCreateOtp
  | MpesaTransactionNotFound
  | FailedToFindMpesaTransaction
  | FailedToUpdateMpesaTransaction
  | CallbackProcessingFailed

datatype js_error = AppError message int | RangeError

section \<open>Pricing (\<open>pricing.config.js\<close>, \<open>pricingCalculator.js\<close>)\<close>

record pricingConfig =
  pricePerLiter :: jsnum
  currency :: string
  minAmount :: jsnum
  maxAmount :: jsnum
  roundingStrategy :: string

text \<open>The configuration when no environment variable is set.\<close>

definition pricingDefaults :: pricingConfig where
  "pricingDefaults =
     \<lparr>pricePerLiter = Num 5, currency = ''KES'', minAmount = Num 5,
      maxAmount = Num 70000, roundingStrategy = ''nearest''\<rparr>"

text \<open>\<open>pricePerLiter || pricingConfig.pricePerLiter\<close>; the default argument is \<open>null\<close>.\<close>

definition price_or_default :: "pricingConfig \<Rightarrow> jsnum option \<Rightarrow> jsnum" where
  "price_or_default cfg arg =
     (case arg of
        None \<Rightarrow> pricePerLiter cfg
      | Some p \<Rightarrow> if js_truthy p then p else pricePerLiter cfg)"

definition calculateLiters :: "pricingConfig \<Rightarrow> jsnum \<Rightarrow> jsnum option \<Rightarrow> js_error + jsnum" where
  "calculateLiters cfg amount arg =
     (let price = price_or_default cfg arg in
      if js_le amount (Num 0) \<or> js_le price (Num 0)
      then Inl (AppError AmountAndPricePositive 400)
      else
        let exactLiters = js_div amount price in
        if roundingStrategy cfg = ''up'' then Inr (Math_ceil exactLiters)
        else if roundingStrategy cfg = ''down'' then Inr (Math_floor exactLiters)
        else Inr (Math_round exactLiters))"

definition calculateAmount :: "pricingConfig \<Rightarrow> jsnum \<Rightarrow> jsnum option \<Rightarrow> js_error + jsnum" where
  "calculateAmount cfg ltrs arg =
     (let price = price_or_default cfg arg in
      if js_le ltrs (Num 0) \<or> js_le price (Num 0)
      then Inl (AppError LitersAndPricePositive 400)
      else Inr (js_mul ltrs price))"

record preview =
  pv_requestedAmount :: jsnum
  pv_amount :: jsnum
  pv_liters :: jsnum
  pv_pricePerLiter :: jsnum
  pv_currency :: string
  pv_roundingStrategy :: string
  pv_difference :: jsnum

definition getPaymentPreview :: "pricingConfig \<Rightarrow> jsnum \<Rightarrow> jsnum option \<Rightarrow> js_error + preview" where
  "getPaymentPreview cfg amount arg =
     (let price = price_or_default cfg arg in
      if js_lt amount (minAmount cfg)
      then Inl (AppError (AmountAtLeast (minAmount cfg) (currency cfg)) 400)
      else if js_gt amount (maxAmount cfg)
      then Inl (AppError (AmountCannotExceed (maxAmount cfg) (currency cfg)) 400)
      else
        case calculateLiters cfg amount (Some price) of
          Inl e \<Rightarrow> Inl e
        | Inr ltrs \<Rightarrow>
            (case calculateAmount cfg ltrs (Some price) of
               Inl e \<Rightarrow> Inl e
             | Inr adjustedAmount \<Rightarrow>
                 Inr \<lparr>pv_requestedAmount = amount,
                      pv_amount = adjustedAmount,
                      pv_liters = ltrs,
                      pv_pricePerLiter = price,
                      pv_currency = currency cfg,
                      pv_roundingStrategy = roundingStrategy cfg,
                      pv_difference = js_sub adjustedAmount amount\<rparr>))"



section \<open>Code generation (\<open>otp.config.js\<close>, \<open>otpGenerator.js\<close>)\<close>

text \<open>
  \<open>otp_length\<close> is \<open>otpConfig.length\<close>, which \<open>validateOtpConfig\<close> keeps between 4 and 10.
  Times are milliseconds since the epoch.
\<close>

record otpConfig =
  otp_length :: nat
  expirationMinutes :: int
  cfg_maxAttempts :: int
  cacheEnabled :: bool
  cacheTtlSeconds :: int

definition otpDefaults :: otpConfig where
  "otpDefaults =
     \<lparr>otp_length = 6, expirationMinutes = 10, cfg_maxAttempts = 3,
      cacheEnabled = True, cacheTtlSeconds = 600\<rparr>"

text \<open>\<open>Number.prototype.toString\<close> on a non-negative integer: its decimal digits.\<close>

definition digit_char :: "nat \<Rightarrow> char" where
  "digit_char d = ''0123456789'' ! (d mod 10)"

function toString :: "nat \<Rightarrow> string" where
  "toString n = (if n < 10 then [digit_char n] else toString (n div 10) @ [digit_char (n mod 10)])"
  by pat_completeness auto
termination
  by (relation "measure id") auto

definition padStart :: "string \<Rightarrow> nat \<Rightarrow> char \<Rightarrow> string" where
  "padStart s n c = replicate (n - length s) c @ s"

text \<open>
  The local constant \<open>otp\<close> of \<open>generateOTP\<close>: the four random bytes read as an unsigned
  32-bit number, reduced modulo the size of the range and shifted to its start.
\<close>

definition otp_number :: "otpConfig \<Rightarrow> 32 word \<Rightarrow> nat" where
  "otp_number cfg randomBytes =
     (let min = 10 ^ (otp_length cfg - 1);
          max = 10 ^ otp_length cfg - 1;
          randomNumber = unat randomBytes
      in randomNumber mod (max - min + 1) + min)"

definition generateOTP :: "otpConfig \<Rightarrow> 32 word \<Rightarrow> string" where
  "generateOTP cfg randomBytes =
     padStart (toString (otp_number cfg randomBytes)) (otp_length cfg) (CHR ''0'')"

text \<open>
  \<open>hashOTP\<close> is the digest \<open>crypto.createHash(otpConfig.hashAlgorithm)\<close>; the model takes
  it as a parameter \<open>H\<close>. \<open>verifyOTP\<close> compares the two hex strings with
  \<open>crypto.timingSafeEqual\<close>, which throws when their lengths differ.
\<close>

definition verifyOTP :: "(string \<Rightarrow> string) \<Rightarrow> string \<Rightarrow> string \<Rightarrow> js_error + bool" where
  "verifyOTP H otp hash =
     (let computedHash = H otp in
      if length computedHash \<noteq> length hash then Inl RangeError
      else Inr (computedHash = hash))"

section \<open>The credential store (\<open>otps\<close> table, \<open>otpRepository.js\<close>)\<close>

datatype otp_status = Active | InProgress | Used | Expired | Blocked

text \<open>
  A row of \<open>otps\<close>. The column \<open>updated_at\<close>, which a trigger touches and no operation
  reads, is left out. The table is the list of its rows in insertion order. Queries are
  taken to succeed: the 500 errors that wrap a failing database connection are not
  modelled, and the references, station ids and codes handed to the operations on
  credentials are taken to be text the database accepts. Each call reads the clock once (\<open>now\<close>): the database's \<open>NOW()\<close> and the
  handler's \<open>new Date()\<close> are the same instant.
\<close>

record otp =
  otp_id :: nat
  transactionReference :: string
  otpHash :: string
  liters :: rat
  status :: otp_status
  stationId :: "string option"
  attempts :: int
  maxAttempts :: int
  usedAt :: "int option"
  verifiedAt :: "int option"
  expiresAt :: int
  createdAt :: int

text \<open>\<open>id SERIAL\<close>: the next value of the sequence, above every id in the table.\<close>

definition next_id :: "otp list \<Rightarrow> nat" where
  "next_id db = Suc (fold max (map otp_id db) 0)"

text \<open>
  The column \<open>liters DECIMAL(10, 2)\<close> rounds what is inserted to two decimals, a tie away
  from zero. \<open>decimal_10_2\<close> is that rounding on a positive number; on a number that is
  not positive its result is not positive either, which is all \<open>create\<close> asks of it.
\<close>

definition decimal_10_2 :: "rat \<Rightarrow> rat" where
  "decimal_10_2 x = of_int \<lfloor>x * 100 + 1 / 2\<rfloor> / 100"

text \<open>
  \<open>create\<close>: the insert with the column defaults (\<open>status 'active'\<close>, \<open>attempts 0\<close>,
  \<open>created_at\<close> now). The row holds the liters as the column stores them. The insert
  fails, and \<open>create\<close> with 500, when the stored value breaks the check constraint
  \<open>liters > 0\<close> (any amount below 0.005) or does not fit the ten digits of the column
  (from \<open>10^8\<close> on).
\<close>

definition create :: "otp list \<Rightarrow> int \<Rightarrow> string \<Rightarrow> string \<Rightarrow> rat \<Rightarrow> int \<Rightarrow> int \<Rightarrow> js_error + (otp \<times> otp list)" where
  "create db now ref hash ltrs expires maxAtt =
     (if decimal_10_2 ltrs \<le> 0 \<or> 10 ^ 8 \<le> decimal_10_2 ltrs
      then Inl (AppError FailedToCreateOtp 500)
      else
        let row = \<lparr>otp_id = next_id db, transactionReference = ref, otpHash = hash,
                   liters = decimal_10_2 ltrs, status = Active, stationId = None, attempts = 0,
                   maxAttempts = maxAtt, usedAt = None, verifiedAt = None,
                   expiresAt = expires, createdAt = now\<rparr>
        in Inr (row, db @ [row]))"

text \<open>
  \<open>ORDER BY created_at DESC LIMIT 1\<close>: the row created last; of rows created at the same
  instant, which SQL leaves open, the first of the table.
\<close>

fun newest :: "otp list \<Rightarrow> otp option" where
  "newest [] = None"
| "newest (x # xs) =
     (case newest xs of
        None \<Rightarrow> Some x
      | Some y \<Rightarrow> if createdAt x < createdAt y then Some y else Some x)"

definition is_live :: "int \<Rightarrow> otp \<Rightarrow> bool" where
  "is_live now r \<longleftrightarrow> (status r = Active \<or> status r = InProgress) \<and> now < expiresAt r"

definition findActiveByTransaction :: "otp list \<Rightarrow> int \<Rightarrow> string \<Rightarrow> otp option" where
  "findActiveByTransaction db now ref =
     newest (filter (\<lambda>r. transactionReference r = ref \<and> is_live now r) db)"

text \<open>
  An \<open>UPDATE ... WHERE id = $n RETURNING *\<close>: every row with the id is rewritten, the
  first rewritten row is returned, and no row is the error 404.
\<close>

definition update_by_id :: "otp list \<Rightarrow> nat \<Rightarrow> (otp \<Rightarrow> otp) \<Rightarrow> js_error + (otp \<times> otp list)" where
  "update_by_id db i f =
     (case filter (\<lambda>r. otp_id r = i) db of
        [] \<Rightarrow> Inl (AppError OtpNotFound 404)
      | r # _ \<Rightarrow> Inr (f r, map (\<lambda>x. if otp_id x = i then f x else x) db))"

text \<open>The fields \<open>update\<close> allows, each present or absent in the \<open>updates\<close> object.\<close>

record otp_updates =
  u_status :: "otp_status option"
  u_attempts :: "int option"
  u_usedAt :: "int option"
  u_verifiedAt :: "int option"
  u_stationId :: "string option"

definition no_updates :: otp_updates where
  "no_updates = \<lparr>u_status = None, u_attempts = None, u_usedAt = None,
                  u_verifiedAt = None, u_stationId = None\<rparr>"

definition apply_updates :: "otp_updates \<Rightarrow> otp \<Rightarrow> otp" where
  "apply_updates u r =
     r\<lparr>status := (case u_status u of None \<Rightarrow> status r | Some s \<Rightarrow> s),
       attempts := (case u_attempts u of None \<Rightarrow> attempts r | Some a \<Rightarrow> a),
       usedAt := (case u_usedAt u of None \<Rightarrow> usedAt r | Some t \<Rightarrow> Some t),
       verifiedAt := (case u_verifiedAt u of None \<Rightarrow> verifiedAt r | Some t \<Rightarrow> Some t),
       stationId := (case u_stationId u of None \<Rightarrow> stationId r | Some s \<Rightarrow> Some s)\<rparr>"

definition update :: "otp list \<Rightarrow> nat \<Rightarrow> otp_updates \<Rightarrow> js_error + (otp \<times> otp list)" where
  "update db i u =
     (if u = no_updates then Inl (AppError NoValidFields 400)
      else update_by_id db i (apply_updates u))"

definition markInProgress :: "otp list \<Rightarrow> int \<Rightarrow> nat \<Rightarrow> string \<Rightarrow> js_error + (otp \<times> otp list)" where
  "markInProgress db now i station =
     update_by_id db i
       (\<lambda>r. r\<lparr>status := InProgress, stationId := Some station, verifiedAt := Some now\<rparr>)"

definition markAsUsed :: "otp list \<Rightarrow> int \<Rightarrow> nat \<Rightarrow> js_error + (otp \<times> otp list)" where
  "markAsUsed db now i = update db i (no_updates\<lparr>u_status := Some Used, u_usedAt := Some now\<rparr>)"

definition incrementAttempts :: "otp list \<Rightarrow> nat \<Rightarrow> js_error + (otp \<times> otp list)" where
  "incrementAttempts db i =
     update_by_id db i
       (\<lambda>r. r\<lparr>attempts := attempts r + 1,
              status := (if attempts r + 1 \<ge> maxAttempts r then Blocked else status r)\<rparr>)"

definition markExpired :: "otp list \<Rightarrow> int \<Rightarrow> nat \<times> otp list" where
  "markExpired db now =
     (length (filter (\<lambda>r. status r = Active \<and> expiresAt r \<le> now) db),
      map (\<lambda>r. if status r = Active \<and> expiresAt r \<le> now then r\<lparr>status := Expired\<rparr> else r) db)"

section \<open>Station verification (\<open>station.config.js\<close>, \<open>stationOtpService.js\<close>)\<close>

record stationConfig =
  pulsesPerLiter :: int
  enforceStationLock :: bool

definition stationDefaults :: stationConfig where
  "stationDefaults = \<lparr>pulsesPerLiter = 1000, enforceStationLock = True\<rparr>"

record station_result =
  sr_transactionReference :: string
  sr_stationId :: string
  sr_liters :: rat
  sr_pulses :: int
  sr_status :: otp_status
  sr_verifiedAt :: "int option"

text \<open>\<open>Math.round(otpRecord.liters * stationConfig.pulsesPerLiter)\<close>.\<close>

definition pulses_of :: "stationConfig \<Rightarrow> rat \<Rightarrow> int" where
  "pulses_of scfg ltrs = \<lfloor>ltrs * of_int (pulsesPerLiter scfg) + 1 / 2\<rfloor>"

text \<open>
  \<open>verifyOTPForStation\<close> returns its outcome and the table as the call leaves it: an
  error can follow a write (the expiry branch, the attempt counter). The three request
  fields are strings; an empty string is falsy. A station id that is \<open>null\<close> or empty is
  falsy in the lock check.
\<close>

definition verifyOTPForStation ::
  "stationConfig \<Rightarrow> (string \<Rightarrow> string) \<Rightarrow> otp list \<Rightarrow> int \<Rightarrow> string \<Rightarrow> string \<Rightarrow> string
     \<Rightarrow> (js_error + station_result) \<times> otp list" where
  "verifyOTPForStation scfg H db now ref code station =
     (if ref = [] \<or> code = [] \<or> station = [] then (Inl (AppError RequiredFields 400), db)
      else if length code \<noteq> 6 then (Inl (AppError OtpSixDigits 400), db)
      else
        case findActiveByTransaction db now ref of
          None \<Rightarrow> (Inl (AppError OtpNotFoundOrExpired 404), db)
        | Some otpRecord \<Rightarrow>
            if expiresAt otpRecord \<le> now then
              (case update db (otp_id otpRecord) (no_updates\<lparr>u_status := Some Expired\<rparr>) of
                 Inl e \<Rightarrow> (Inl e, db)
               | Inr (_, db') \<Rightarrow> (Inl (AppError OtpHasExpired 400), db'))
            else if status otpRecord = Used then (Inl (AppError OtpAlreadyUsed 400), db)
            else if status otpRecord = Blocked then (Inl (AppError OtpBlocked 400), db)
            else if enforceStationLock scfg \<and> stationId otpRecord \<noteq> None \<and>
                    stationId otpRecord \<noteq> Some [] \<and> stationId otpRecord \<noteq> Some station
            then (Inl (AppError (OtpLockedToStation (the (stationId otpRecord)) station) 403), db)
            else if status otpRecord = InProgress \<and> stationId otpRecord \<noteq> Some station
            then (Inl (AppError (OtpInUseAtStation (stationId otpRecord)) 409), db)
            else
              case verifyOTP H code (otpHash otpRecord) of
                Inl e \<Rightarrow> (Inl e, db)
              | Inr False \<Rightarrow>
                  (case incrementAttempts db (otp_id otpRecord) of
                     Inl e \<Rightarrow> (Inl e, db)
                   | Inr (updatedOtp, db') \<Rightarrow>
                       if status updatedOtp = Blocked then (Inl (AppError OtpBlocked 400), db')
                       else
                         (Inl (AppError (InvalidOtpRemaining
                                 (maxAttempts updatedOtp - attempts updatedOtp)) 400), db'))
              | Inr True \<Rightarrow>
                  (case markInProgress db now (otp_id otpRecord) station of
                     Inl e \<Rightarrow> (Inl e, db)
                   | Inr (inProgressOtp, db') \<Rightarrow>
                       (Inr \<lparr>sr_transactionReference = ref,
                             sr_stationId = station,
                             sr_liters = liters otpRecord,
                             sr_pulses = pulses_of scfg (liters otpRecord),
                             sr_status = InProgress,
                             sr_verifiedAt = verifiedAt inProgressOtp\<rparr>, db')))"

section \<open>The cache (\<open>redis.js\<close>) and the two transaction tables\<close>

text \<open>
  What \<open>generateOTP\<close> stores under the key \<open>otp:\<close> followed by the reference: no id,
  no status, no station. An entry carries the instant its TTL ends. Commands on an open
  client are taken to succeed.
\<close>

record cache_data =
  c_otpHash :: string
  c_liters :: rat
  c_expiresAt :: int
  c_attempts :: int

record redis_client =
  isOpen :: bool
  entries :: "(string \<times> (cache_data \<times> int)) list"

definition getCacheKey :: "string \<Rightarrow> string" where
  "getCacheKey ref = ''otp:'' @ ref"

definition redis_get :: "redis_client \<Rightarrow> int \<Rightarrow> string \<Rightarrow> cache_data option" where
  "redis_get c now key =
     (case map_of (entries c) key of
        None \<Rightarrow> None
      | Some (d, ends) \<Rightarrow> if now < ends then Some d else None)"

definition redis_setEx :: "redis_client \<Rightarrow> int \<Rightarrow> string \<Rightarrow> int \<Rightarrow> cache_data \<Rightarrow> redis_client" where
  "redis_setEx c now key ttl d = c\<lparr>entries := AList.update key (d, now + ttl * 1000) (entries c)\<rparr>"

definition redis_del :: "redis_client \<Rightarrow> string \<Rightarrow> redis_client" where
  "redis_del c key = c\<lparr>entries := AList.delete key (entries c)\<rparr>"

datatype txn_status =
  Pending | Processing | Completed | Failed | Cancelled | TxExpired | Timeout | Abandoned | Reversed

text \<open>
  Of a row of \<open>transactions\<close> (the table behind \<open>transactionRepository\<close>) the credential
  service reads the reference and the status only.
\<close>

record txn =
  tx_reference :: string
  tx_status :: txn_status

text \<open>
  A JavaScript \<open>Date\<close> is its time value in milliseconds, or \<open>None\<close> when it is an
  \<open>Invalid Date\<close>. The column \<open>transaction_date\<close> holds a time or \<open>NULL\<close>.
\<close>

type_synonym js_date = "int option"

record mpesa_txn =
  m_reference :: string
  m_phoneNumber :: string
  m_amount :: rat
  m_liters :: rat
  m_status :: txn_status
  m_checkoutRequestId :: "string option"
  m_resultCode :: "int option"
  m_resultDesc :: "string option"
  m_mpesaReceiptNumber :: "string option"
  m_transactionDate :: "int option"

record sms =
  sms_to :: string
  sms_otp :: string
  sms_liters :: rat
  sms_expiresInMinutes :: int

record system =
  otps :: "otp list"
  transactions :: "txn list"
  mpesa_transactions :: "mpesa_txn list"
  redis :: redis_client
  sms_sent :: "sms list"

section \<open>Issuing and customer verification (\<open>otpService.js\<close>)\<close>

record issued =
  is_otp :: string
  is_transactionReference :: string
  is_liters :: rat
  is_expiresAt :: int
  is_expiresInMinutes :: int

text \<open>
  \<open>generateOTP\<close> reads the transaction and the live credential, sets that credential to
  \<open>expired\<close> and inserts the new one, each an awaited round trip to the database of its
  own, outside any database transaction, and \<open>otps\<close> has no unique index on the
  reference. \<open>OtpService_generateOTP\<close> is a call that runs from its first to its last
  round trip with no other call in between, as every service call of this theory does.
\<close>

definition OtpService_generateOTP ::
  "otpConfig \<Rightarrow> (string \<Rightarrow> string) \<Rightarrow> system \<Rightarrow> int \<Rightarrow> 32 word \<Rightarrow> string \<Rightarrow> rat
     \<Rightarrow> (js_error + issued) \<times> system" where
  "OtpService_generateOTP cfg H s now randomBytes ref ltrs =
     (case find (\<lambda>t. tx_reference t = ref) (transactions s) of
        None \<Rightarrow> (Inl (AppError TransactionNotFound 404), s)
      | Some transaction \<Rightarrow>
          if tx_status transaction \<noteq> Completed then (Inl (AppError OtpOnlyForCompleted 400), s)
          else
            case (case findActiveByTransaction (otps s) now ref of
                    None \<Rightarrow> Inr (otps s)
                  | Some existingOtp \<Rightarrow>
                      (case update (otps s) (otp_id existingOtp)
                              (no_updates\<lparr>u_status := Some Expired\<rparr>) of
                         Inl e \<Rightarrow> Inl e
                       | Inr (_, db') \<Rightarrow> Inr db')) of
              Inl e \<Rightarrow> (Inl e, s)
            | Inr db1 \<Rightarrow>
                let otp = generateOTP cfg randomBytes;
                    hash = H otp;
                    expires = now + expirationMinutes cfg * 60000
                in case create db1 now ref hash ltrs expires (cfg_maxAttempts cfg) of
                     Inl e \<Rightarrow> (Inl e, s\<lparr>otps := db1\<rparr>)
                   | Inr (otpRecord, db2) \<Rightarrow>
                       let cache' =
                             (if cacheEnabled cfg \<and> isOpen (redis s)
                              then redis_setEx (redis s) now (getCacheKey ref) (cacheTtlSeconds cfg)
                                     \<lparr>c_otpHash = hash, c_liters = ltrs,
                                      c_expiresAt = expires, c_attempts = 0\<rparr>
                              else redis s)
                       in (Inr \<lparr>is_otp = otp, is_transactionReference = ref, is_liters = ltrs,
                                is_expiresAt = expires,
                                is_expiresInMinutes = expirationMinutes cfg\<rparr>,
                           s\<lparr>otps := db2, redis := cache'\<rparr>))"

text \<open>
  The three round trips of \<open>generateOTP\<close> one by one, for calls that overlap: the reads
  (\<open>issue_find\<close>, which returns the live credential it found), the update
  (\<open>issue_expire\<close>, on the credential the reads returned) and the insert with the cache
  entry (\<open>issue_insert\<close>). Each acts on the state as it is when its turn comes.
\<close>

definition issue_find :: "system \<Rightarrow> int \<Rightarrow> string \<Rightarrow> js_error + otp option" where
  "issue_find s now ref =
     (case find (\<lambda>t. tx_reference t = ref) (transactions s) of
        None \<Rightarrow> Inl (AppError TransactionNotFound 404)
      | Some transaction \<Rightarrow>
          if tx_status transaction \<noteq> Completed then Inl (AppError OtpOnlyForCompleted 400)
          else Inr (findActiveByTransaction (otps s) now ref))"

definition issue_expire :: "system \<Rightarrow> otp option \<Rightarrow> js_error + system" where
  "issue_expire s existing =
     (case existing of
        None \<Rightarrow> Inr s
      | Some existingOtp \<Rightarrow>
          (case update (otps s) (otp_id existingOtp) (no_updates\<lparr>u_status := Some Expired\<rparr>) of
             Inl e \<Rightarrow> Inl e
           | Inr (_, db') \<Rightarrow> Inr (s\<lparr>otps := db'\<rparr>)))"

definition issue_insert ::
  "otpConfig \<Rightarrow> (string \<Rightarrow> string) \<Rightarrow> system \<Rightarrow> int \<Rightarrow> 32 word \<Rightarrow> string \<Rightarrow> rat
     \<Rightarrow> (js_error + issued) \<times> system" where
  "issue_insert cfg H s now randomBytes ref ltrs =
     (let otp = generateOTP cfg randomBytes;
          hash = H otp;
          expires = now + expirationMinutes cfg * 60000
      in case create (otps s) now ref hash ltrs expires (cfg_maxAttempts cfg) of
           Inl e \<Rightarrow> (Inl e, s)
         | Inr (otpRecord, db2) \<Rightarrow>
             let cache' =
                   (if cacheEnabled cfg \<and> isOpen (redis s)
                    then redis_setEx (redis s) now (getCacheKey ref) (cacheTtlSeconds cfg)
                           \<lparr>c_otpHash = hash, c_liters = ltrs,
                            c_expiresAt = expires, c_attempts = 0\<rparr>
                    else redis s)
             in (Inr \<lparr>is_otp = otp, is_transactionReference = ref, is_liters = ltrs,
                      is_expiresAt = expires,
                      is_expiresInMinutes = expirationMinutes cfg\<rparr>,
                 s\<lparr>otps := db2, redis := cache'\<rparr>))"

text \<open>
  Two calls of \<open>generateOTP\<close> for one reference that overlap: both read before either
  writes, then each expires what it read, then each inserts. The result is the state
  after both, or \<open>None\<close> when one of the calls throws before its insert.
\<close>

definition overlapping_generateOTP ::
  "otpConfig \<Rightarrow> (string \<Rightarrow> string) \<Rightarrow> system \<Rightarrow> int \<Rightarrow> 32 word \<Rightarrow> int \<Rightarrow> 32 word
     \<Rightarrow> string \<Rightarrow> rat \<Rightarrow> system option" where
  "overlapping_generateOTP cfg H s now1 randomBytes1 now2 randomBytes2 ref ltrs =
     (case issue_find s now1 ref of
        Inl e \<Rightarrow> None
      | Inr existing1 \<Rightarrow>
          (case issue_find s now2 ref of
             Inl e \<Rightarrow> None
           | Inr existing2 \<Rightarrow>
               (case issue_expire s existing1 of
                  Inl e \<Rightarrow> None
                | Inr s1 \<Rightarrow>
                    (case issue_expire s1 existing2 of
                       Inl e \<Rightarrow> None
                     | Inr s2 \<Rightarrow>
                         Some (snd (issue_insert cfg H
                                 (snd (issue_insert cfg H s2 now1 randomBytes1 ref ltrs))
                                 now2 randomBytes2 ref ltrs))))))"

text \<open>
  The record \<open>verifyOTP\<close> works on is either rebuilt from the cache entry, with the status
  \<open>'active'\<close> and no \<open>id\<close>, or a row of the table. \<open>if (otpRecord.id)\<close> holds for a row
  whose id is not 0.
\<close>

datatype otp_view = Cached cache_data | Stored otp

fun view_id :: "otp_view \<Rightarrow> nat option" where
  "view_id (Cached c) = None"
| "view_id (Stored r) = (if otp_id r = 0 then None else Some (otp_id r))"

fun view_status :: "otp_view \<Rightarrow> otp_status" where
  "view_status (Cached c) = Active"
| "view_status (Stored r) = status r"

fun view_otpHash :: "otp_view \<Rightarrow> string" where
  "view_otpHash (Cached c) = c_otpHash c"
| "view_otpHash (Stored r) = otpHash r"

fun view_liters :: "otp_view \<Rightarrow> rat" where
  "view_liters (Cached c) = c_liters c"
| "view_liters (Stored r) = liters r"

fun view_expiresAt :: "otp_view \<Rightarrow> int" where
  "view_expiresAt (Cached c) = c_expiresAt c"
| "view_expiresAt (Stored r) = expiresAt r"

record verify_result =
  vr_transactionReference :: string
  vr_liters :: rat

definition cache_on :: "otpConfig \<Rightarrow> system \<Rightarrow> bool" where
  "cache_on cfg s \<longleftrightarrow> cacheEnabled cfg \<and> isOpen (redis s)"

definition drop_cached :: "otpConfig \<Rightarrow> system \<Rightarrow> string \<Rightarrow> system" where
  "drop_cached cfg s ref =
     (if cache_on cfg s then s\<lparr>redis := redis_del (redis s) (getCacheKey ref)\<rparr> else s)"

definition lookup_otp :: "otpConfig \<Rightarrow> system \<Rightarrow> int \<Rightarrow> string \<Rightarrow> otp_view option" where
  "lookup_otp cfg s now ref =
     (case (if cache_on cfg s then redis_get (redis s) now (getCacheKey ref) else None) of
        Some cache \<Rightarrow> Some (Cached cache)
      | None \<Rightarrow> map_option Stored (findActiveByTransaction (otps s) now ref))"

definition OtpService_verifyOTP ::
  "otpConfig \<Rightarrow> (string \<Rightarrow> string) \<Rightarrow> system \<Rightarrow> int \<Rightarrow> string \<Rightarrow> string
     \<Rightarrow> (js_error + verify_result) \<times> system" where
  "OtpService_verifyOTP cfg H s now ref code =
     (case lookup_otp cfg s now ref of
        None \<Rightarrow> (Inl (AppError OtpNotFoundOrExpired 404), s)
      | Some otpRecord \<Rightarrow>
          if view_expiresAt otpRecord \<le> now then
            (case (case view_id otpRecord of
                     None \<Rightarrow> Inr (otps s)
                   | Some i \<Rightarrow>
                       (case update (otps s) i (no_updates\<lparr>u_status := Some Expired\<rparr>) of
                          Inl e \<Rightarrow> Inl e
                        | Inr (_, db') \<Rightarrow> Inr db')) of
               Inl e \<Rightarrow> (Inl e, s)
             | Inr db' \<Rightarrow> (Inl (AppError OtpHasExpired 400), drop_cached cfg (s\<lparr>otps := db'\<rparr>) ref))
          else if view_status otpRecord = Used then (Inl (AppError OtpAlreadyUsed 400), s)
          else if view_status otpRecord = Blocked then (Inl (AppError OtpBlocked 400), s)
          else
            case verifyOTP H code (view_otpHash otpRecord) of
              Inl e \<Rightarrow> (Inl e, s)
            | Inr False \<Rightarrow>
                (case view_id otpRecord of
                   None \<Rightarrow> (Inl (AppError InvalidOtp 400), s)
                 | Some i \<Rightarrow>
                     (case incrementAttempts (otps s) i of
                        Inl e \<Rightarrow> (Inl e, s)
                      | Inr (updatedOtp, db') \<Rightarrow>
                          let s' = s\<lparr>otps := db'\<rparr>;
                              s'' = (if cache_on cfg s'
                                     then s'\<lparr>redis := redis_setEx (redis s') now (getCacheKey ref)
                                            (cacheTtlSeconds cfg)
                                            \<lparr>c_otpHash = otpHash updatedOtp,
                                             c_liters = liters updatedOtp,
                                             c_expiresAt = expiresAt updatedOtp,
                                             c_attempts = attempts updatedOtp\<rparr>\<rparr>
                                     else s')
                          in if status updatedOtp = Blocked
                             then (Inl (AppError OtpBlocked 400), s'')
                             else (Inl (AppError InvalidOtp 400), s'')))
            | Inr True \<Rightarrow>
                (case (case view_id otpRecord of
                         None \<Rightarrow> Inr (otps s)
                       | Some i \<Rightarrow>
                           (case markAsUsed (otps s) now i of
                              Inl e \<Rightarrow> Inl e
                            | Inr (_, db') \<Rightarrow> Inr db')) of
                   Inl e \<Rightarrow> (Inl e, s)
                 | Inr db' \<Rightarrow>
                     (Inr \<lparr>vr_transactionReference = ref, vr_liters = view_liters otpRecord\<rparr>,
                      drop_cached cfg (s\<lparr>otps := db'\<rparr>) ref)))"

text \<open>\<open>OtpExpirationService.markExpiredOTPs\<close>, the periodic sweep.\<close>

definition markExpiredOTPs :: "system \<Rightarrow> int \<Rightarrow> nat \<times> system" where
  "markExpiredOTPs s now = (case markExpired (otps s) now of (n, db') \<Rightarrow> (n, s\<lparr>otps := db'\<rparr>))"

section \<open>The payment callback (\<open>mpesaPaymentService.js\<close>)\<close>

text \<open>
  The callback as \<open>darajaService.validateCallback\<close> parses it. The receipt number and
  the transaction date are the metadata items, absent when the provider sent none.
\<close>

record callback =
  cb_checkoutRequestId :: string
  cb_resultCode :: int
  cb_resultDesc :: string
  cb_mpesaReceiptNumber :: "string option"
  cb_transactionDate :: "string option"

definition status_of_resultCode :: "int \<Rightarrow> txn_status" where
  "status_of_resultCode rc =
     (if rc = 0 then Completed else if rc = 1032 then Cancelled
      else if rc = 1037 then Timeout else Failed)"

text \<open>
  \<open>_parseTransactionDate\<close>: the current time for a string whose length is not 14,
  otherwise \<open>new Date\<close> of the string \<open>YYYY-MM-DDTHH:mm:ssZ\<close> cut from it. The engine's
  date parser is the parameter \<open>D\<close>; it returns \<open>None\<close>, an \<open>Invalid Date\<close>, for a string
  that is no date.
\<close>

definition parseTransactionDate :: "(string \<Rightarrow> js_date) \<Rightarrow> int \<Rightarrow> string \<Rightarrow> js_date" where
  "parseTransactionDate D now dateStr =
     (if length dateStr \<noteq> 14 then Some now
      else
        let year = take 4 dateStr;
            month = take 2 (drop 4 dateStr);
            day = take 2 (drop 6 dateStr);
            hours = take 2 (drop 8 dateStr);
            minutes = take 2 (drop 10 dateStr);
            seconds = take 2 (drop 12 dateStr)
        in D (year @ ''-'' @ month @ ''-'' @ day @ ''T'' @ hours @ '':'' @ minutes @ '':'' @
              seconds @ ''Z''))"

text \<open>
  What the columns the callback writes accept. \<open>result_code INTEGER\<close> holds 32-bit signed
  integers. A string with the character NUL is no text for the database. A string longer
  than the \<open>n\<close> characters of a \<open>VARCHAR(n)\<close> column is an error, unless all that exceeds
  \<open>n\<close> is spaces, which are cut off. \<open>VARCHAR\<close> returns what is stored, \<open>None\<close> for an
  error.
\<close>

definition fits_INTEGER :: "int \<Rightarrow> bool" where
  "fits_INTEGER n \<longleftrightarrow> - (2 ^ 31) \<le> n \<and> n < 2 ^ 31"

definition fits_TEXT :: "string \<Rightarrow> bool" where
  "fits_TEXT str \<longleftrightarrow> CHR 0x00 \<notin> set str"

definition VARCHAR :: "nat \<Rightarrow> string \<Rightarrow> string option" where
  "VARCHAR n str =
     (if \<not> fits_TEXT str then None
      else if length str \<le> n then Some str
      else if list_all (\<lambda>c. c = CHR '' '') (drop n str) then Some (take n str)
      else None)"

text \<open>
  \<open>mpesaTransactionRepository.update\<close> for the fields the callback writes: every row with
  the reference is rewritten and the first is returned.
\<close>

definition mpesa_update ::
  "mpesa_txn list \<Rightarrow> string \<Rightarrow> (mpesa_txn \<Rightarrow> mpesa_txn) \<Rightarrow> js_error + (mpesa_txn \<times> mpesa_txn list)" where
  "mpesa_update tbl ref f =
     (case filter (\<lambda>t. m_reference t = ref) tbl of
        [] \<Rightarrow> Inl (AppError MpesaTransactionNotFound 404)
      | t # _ \<Rightarrow> Inr (f t, map (\<lambda>x. if m_reference x = ref then f x else x) tbl))"

text \<open>
  \<open>handleCallback\<close>. The lookup by checkout request id is rejected by the database, and
  the repository throws 500, when the id is no text. A success callback without a
  transaction date makes \<open>_parseTransactionDate\<close> throw, which the outer \<open>catch\<close> turns
  into the error 500 before anything is written. The \<open>UPDATE\<close> is rejected by the
  database, and the repository throws 500 with nothing written, when the date to store is
  an \<open>Invalid Date\<close>, when the receipt number does not fit
  \<open>mpesa_receipt_number VARCHAR(255)\<close>, when the result code does not fit its column, or
  when the result description is no text. Whatever \<open>generateOTP\<close> throws is logged and
  dropped; what it wrote before throwing stays. \<open>smsService.sendOTP\<close> never throws: the
  request is recorded in \<open>sms_sent\<close>.
\<close>

definition handleCallback ::
  "otpConfig \<Rightarrow> (string \<Rightarrow> string) \<Rightarrow> (string \<Rightarrow> js_date) \<Rightarrow> system \<Rightarrow> int \<Rightarrow> 32 word
     \<Rightarrow> callback \<Rightarrow> (js_error + mpesa_txn) \<times> system" where
  "handleCallback cfg H D s now randomBytes parsed =
     (if \<not> fits_TEXT (cb_checkoutRequestId parsed)
      then (Inl (AppError FailedToFindMpesaTransaction 500), s)
      else
      case find (\<lambda>t. m_checkoutRequestId t = Some (cb_checkoutRequestId parsed))
             (mpesa_transactions s) of
        None \<Rightarrow> (Inl (AppError TransactionNotFound 404), s)
      | Some transaction \<Rightarrow>
          let st = status_of_resultCode (cb_resultCode parsed) in
          if st = Completed \<and> cb_transactionDate parsed = None
          then (Inl (AppError CallbackProcessingFailed 500), s)
          else
            let transactionDate =
                  Option.bind (cb_transactionDate parsed) (parseTransactionDate D now);
                receiptNumber = Option.bind (cb_mpesaReceiptNumber parsed) (VARCHAR 255);
                write = (\<lambda>t. (if st = Completed
                               then t\<lparr>m_mpesaReceiptNumber := receiptNumber,
                                      m_transactionDate := transactionDate\<rparr>
                               else t)
                              \<lparr>m_status := st,
                               m_resultCode := Some (cb_resultCode parsed),
                               m_resultDesc := Some (cb_resultDesc parsed)\<rparr>)
            in if (st = Completed \<and>
                    (transactionDate = None \<or>
                     (cb_mpesaReceiptNumber parsed \<noteq> None \<and> receiptNumber = None))) \<or>
                  \<not> fits_INTEGER (cb_resultCode parsed) \<or>
                  \<not> fits_TEXT (cb_resultDesc parsed)
               then (Inl (AppError FailedToUpdateMpesaTransaction 500), s)
               else
                 case mpesa_update (mpesa_transactions s) (m_reference transaction) write of
                   Inl e \<Rightarrow> (Inl e, s)
                 | Inr (updatedTransaction, tbl') \<Rightarrow>
                     let s1 = s\<lparr>mpesa_transactions := tbl'\<rparr> in
                     if st = Completed then
                       (case OtpService_generateOTP cfg H s1 now randomBytes
                               (m_reference transaction) (m_liters transaction) of
                          (Inl otpError, s2) \<Rightarrow> (Inr updatedTransaction, s2)
                        | (Inr otpData, s2) \<Rightarrow>
                            (Inr updatedTransaction,
                             s2\<lparr>sms_sent := sms_sent s2 @
                                   [\<lparr>sms_to = ''+'' @ m_phoneNumber transaction,
                                     sms_otp = is_otp otpData,
                                     sms_liters = m_liters transaction,
                                     sms_expiresInMinutes = is_expiresInMinutes otpData\<rparr>]\<rparr>))
                     else (Inr updatedTransaction, s1))"

section \<open>Properties of the table and the states the examples start from\<close>

text \<open>\<open>id\<close> is the primary key of \<open>otps\<close>.\<close>

definition unique_ids :: "otp list \<Rightarrow> bool" where
  "unique_ids db \<longleftrightarrow> distinct (map otp_id db)"

text \<open>
  No two rows of one transaction reference are live at \<open>now\<close>, where a row is live when
  \<open>findActiveByTransaction\<close> can return it: its status is \<open>active\<close> or \<open>in_progress\<close> and
  it expires after \<open>now\<close>.
\<close>

definition one_live_per_reference :: "int \<Rightarrow> otp list \<Rightarrow> bool" where
  "one_live_per_reference now db \<longleftrightarrow> distinct (map transactionReference (filter (is_live now) db))"

text \<open>Both together: the table as the operations find it and leave it.\<close>

definition table_ok :: "int \<Rightarrow> otp list \<Rightarrow> bool" where
  "table_ok now db \<longleftrightarrow> unique_ids db \<and> one_live_per_reference now db"

text \<open>The same with the status alone, whatever the expiry time.\<close>

definition one_open_per_reference :: "otp list \<Rightarrow> bool" where
  "one_open_per_reference db \<longleftrightarrow>
     distinct (map transactionReference
       (filter (\<lambda>r. status r = Active \<or> status r = InProgress) db))"

text \<open>
  A system with no credential yet, the cache connected, and the reference \<open>WS-1\<close> a
  completed row of \<open>transactions\<close> and a processing row of \<open>mpesa_transactions\<close>. Both
  payment services draw their references from \<open>generateTransactionReference\<close>, and each
  table is unique on the reference by itself only, so one reference can be in both.
\<close>

definition sys0 :: system where
  "sys0 =
     \<lparr>otps = [],
      transactions = [\<lparr>tx_reference = ''WS-1'', tx_status = Completed\<rparr>],
      mpesa_transactions =
        [\<lparr>m_reference = ''WS-1'', m_phoneNumber = ''254712345678'', m_amount = 50,
          m_liters = 10, m_status = Processing, m_checkoutRequestId = Some ''ws_CO_1'',
          m_resultCode = None, m_resultDesc = None, m_mpesaReceiptNumber = None,
          m_transactionDate = None\<rparr>],
      redis = \<lparr>isOpen = True, entries = []\<rparr>,
      sms_sent = []\<rparr>"



text \<open>
  The credential \<open>generateOTP\<close> issues in \<open>sys0\<close> at time 0 from the random bytes 0: the
  code \<open>100000\<close>, ten liters, expiring at 600000. The examples take the identity for the
  digest, so the stored hash is the code.
\<close>

definition row0 :: otp where
  "row0 =
     \<lparr>otp_id = 1, transactionReference = ''WS-1'', otpHash = ''100000'', liters = 10,
      status = Active, stationId = None, attempts = 0, maxAttempts = 3, usedAt = None,
      verifiedAt = None, expiresAt = 600000, createdAt = 0\<rparr>"

text \<open>\<open>sys0\<close> after that call: the credential and its cache entry, which ends at 600000.\<close>

definition sys1 :: system where
  "sys1 =
     sys0\<lparr>otps := [row0],
          redis := \<lparr>isOpen = True,
                    entries = [(''otp:WS-1'',
                      (\<lparr>c_otpHash = ''100000'', c_liters = 10, c_expiresAt = 600000,
                        c_attempts = 0\<rparr>, 600000))]\<rparr>\<rparr>"


section \<open>Claims on pricing\<close>

lemma round_half_pos:
  fixes a :: rat
  assumes "5 / 2 \<le> a"
  shows "0 < \<lfloor>a / 5 + 1 / 2\<rfloor>"
proof -
  have "1 \<le> a / 5 + 1 / 2" using assms by simp
  then have "1 \<le> \<lfloor>a / 5 + 1 / 2\<rfloor>" by (simp add: le_floor_iff)
  then show ?thesis by simp
qed

text \<open>
  C6. With the default configuration (price 5 per liter, amounts from 5 to 70000, rounding
  to the nearest) the preview of every amount in range has for liters the quotient
  \<open>amount / 5\<close> rounded half up, for amount the liters times 5 and for difference that
  amount minus the requested one; the preview of 52 is 10 liters for 50 (difference -2)
  and the preview of 53 is 11 liters for 55 (difference 2).
\<close>

theorem C6_preview_nearest:
  "(\<forall>a. 5 \<le> a \<and> a \<le> 70000 \<longrightarrow>
      getPaymentPreview pricingDefaults (Num a) None =
        Inr \<lparr>pv_requestedAmount = Num a,
             pv_amount = Num (of_int \<lfloor>a / 5 + 1 / 2\<rfloor> * 5),
             pv_liters = Num (of_int \<lfloor>a / 5 + 1 / 2\<rfloor>),
             pv_pricePerLiter = Num 5,
             pv_currency = ''KES'',
             pv_roundingStrategy = ''nearest'',
             pv_difference = Num (of_int \<lfloor>a / 5 + 1 / 2\<rfloor> * 5 - a)\<rparr>) \<and>
   getPaymentPreview pricingDefaults (Num 52) None =
     Inr \<lparr>pv_requestedAmount = Num 52, pv_amount = Num 50, pv_liters = Num 10,
          pv_pricePerLiter = Num 5, pv_currency = ''KES'',
          pv_roundingStrategy = ''nearest'', pv_difference = Num (- 2)\<rparr> \<and>
   getPaymentPreview pricingDefaults (Num 53) None =
     Inr \<lparr>pv_requestedAmount = Num 53, pv_amount = Num 55, pv_liters = Num 11,
          pv_pricePerLiter = Num 5, pv_currency = ''KES'',
          pv_roundingStrategy = ''nearest'', pv_difference = Num 2\<rparr>"
proof -
  have gen: "getPaymentPreview pricingDefaults (Num a) None =
        Inr \<lparr>pv_requestedAmount = Num a,
             pv_amount = Num (of_int \<lfloor>a / 5 + 1 / 2\<rfloor> * 5),
             pv_liters = Num (of_int \<lfloor>a / 5 + 1 / 2\<rfloor>),
             pv_pricePerLiter = Num 5,
             pv_currency = ''KES'',
             pv_roundingStrategy = ''nearest'',
             pv_difference = Num (of_int \<lfloor>a / 5 + 1 / 2\<rfloor> * 5 - a)\<rparr>"
    if "5 \<le> a" "a \<le> 70000" for a :: rat
  proof -
    have pos: "0 < \<lfloor>a / 5 + 1 / 2\<rfloor>" using that by (intro round_half_pos) simp
    have apos: "\<not> a \<le> 0" using that by simp
    show ?thesis
      using that pos apos
      by (simp add: getPaymentPreview_def pricingDefaults_def price_or_default_def
          calculateLiters_def calculateAmount_def js_gt_def Let_def not_le)
  qed
  have f52: "\<lfloor>(109::rat) / 10\<rfloor> = 10" by (simp add: floor_eq_iff)
  have f53: "\<lfloor>(111::rat) / 10\<rfloor> = 11" by (simp add: floor_eq_iff)
  from gen [of 52] gen [of 53] gen show ?thesis
    by (simp add: f52 f53)
qed


text \<open>The theorem at the amount 20: four liters, nothing to adjust.\<close>

theorem C6_preview_nearest_witness:
  "(5::rat) \<le> 20 \<and> (20::rat) \<le> 70000 \<and>
   getPaymentPreview pricingDefaults (Num 20) None =
     Inr \<lparr>pv_requestedAmount = Num 20, pv_amount = Num 20, pv_liters = Num 4,
          pv_pricePerLiter = Num 5, pv_currency = ''KES'',
          pv_roundingStrategy = ''nearest'', pv_difference = Num 0\<rparr>"
proof -
  have f: "\<lfloor>(9::rat) / 2\<rfloor> = 4" by (simp add: floor_eq_iff)
  from C6_preview_nearest have
    "(5::rat) \<le> 20 \<and> (20::rat) \<le> 70000 \<longrightarrow> getPaymentPreview pricingDefaults (Num 20) None =
        Inr \<lparr>pv_requestedAmount = Num 20,
             pv_amount = Num (of_int \<lfloor>(20::rat) / 5 + 1 / 2\<rfloor> * 5),
             pv_liters = Num (of_int \<lfloor>(20::rat) / 5 + 1 / 2\<rfloor>),
             pv_pricePerLiter = Num 5,
             pv_currency = ''KES'',
             pv_roundingStrategy = ''nearest'',
             pv_difference = Num (of_int \<lfloor>(20::rat) / 5 + 1 / 2\<rfloor> * 5 - 20)\<rparr>"
    by blast
  then show ?thesis by (simp add: f)
qed






section \<open>Claims on code generation\<close>

lemma residue_bound_aux:
  fixes m r q t k :: nat
  assumes "r < m" and t: "t < m"
  shows "k * m + r < q * m + t \<longleftrightarrow> k < q + (if r < t then 1 else 0)"
proof -
  have lt: "k * m + m \<le> q * m" if "k < q"
  proof -
    from that have "Suc k \<le> q" by simp
    then have "Suc k * m \<le> q * m" by (rule mult_le_mono1)
    then show ?thesis by simp
  qed
  have gt: "q * m + m \<le> k * m" if "q < k"
  proof -
    from that have "Suc q \<le> k" by simp
    then have "Suc q * m \<le> k * m" by (rule mult_le_mono1)
    then show ?thesis by simp
  qed
  consider "k < q" | "k = q" | "q < k" by linarith
  then show ?thesis
  proof cases
    case 1
    with lt [OF 1] assms show ?thesis by simp
  next
    case 2
    then show ?thesis by simp
  next
    case 3
    with gt [OF 3] t show ?thesis by simp
  qed
qed

lemma residue_bound:
  fixes m r N k :: nat
  assumes "r < m"
  shows "k * m + r < N \<longleftrightarrow> k < N div m + (if r < N mod m then 1 else 0)"
proof -
  have "N mod m < m" using assms by simp
  from residue_bound_aux [OF assms this, of k "N div m"] show ?thesis
    by (simp only: div_mult_mod_eq)
qed

lemma card_residue:
  fixes m r N :: nat
  assumes "r < m"
  shows "card {n. n < N \<and> n mod m = r} = N div m + (if r < N mod m then 1 else 0)"
proof -
  let ?c = "N div m + (if r < N mod m then 1 else 0)"
  have "{n. n < N \<and> n mod m = r} = (\<lambda>k. k * m + r) ` {k. k < ?c}"
  proof (intro set_eqI iffI)
    fix n assume "n \<in> {n. n < N \<and> n mod m = r}"
    then have n: "n < N" "n mod m = r" by auto
    have e: "n = (n div m) * m + r" using n(2) div_mult_mod_eq [of n m] by simp
    then have "(n div m) * m + r < N" using n(1) by simp
    then have "n div m < ?c" using residue_bound [OF assms] by blast
    with e show "n \<in> (\<lambda>k. k * m + r) ` {k. k < ?c}" by blast
  next
    fix n assume "n \<in> (\<lambda>k. k * m + r) ` {k. k < ?c}"
    then obtain k where k: "n = k * m + r" "k < ?c" by auto
    then have "n < N" using residue_bound [OF assms] by blast
    moreover have "n mod m = r" using k(1) assms by simp
    ultimately show "n \<in> {n. n < N \<and> n mod m = r}" by simp
  qed
  moreover have "inj_on (\<lambda>k. k * m + r) {k. k < ?c}"
    using assms by (auto simp: inj_on_def)
  ultimately have "card {n. n < N \<and> n mod m = r} = card {k. k < ?c}"
    by (simp add: card_image)
  then show ?thesis by simp
qed

lemma card_word32:
  "card {w :: 32 word. P (unat w)} = card {n. n < 2 ^ 32 \<and> P n}"
proof -
  have "unat ` {w :: 32 word. P (unat w)} = {n. n < 2 ^ 32 \<and> P n}"
  proof (intro set_eqI iffI)
    fix n assume "n \<in> unat ` {w :: 32 word. P (unat w)}"
    then obtain w :: "32 word" where "n = unat w" "P (unat w)" by auto
    moreover have "unat w < 2 ^ 32" using unsigned_less [of w] by simp
    ultimately show "n \<in> {n. n < 2 ^ 32 \<and> P n}" by simp
  next
    fix n assume "n \<in> {n. n < 2 ^ 32 \<and> P n}"
    then have n: "n < 2 ^ 32" "P n" by auto
    then have "unat (word_of_nat n :: 32 word) = n"
      by (simp add: unat_of_nat)
    with n have "word_of_nat n \<in> {w :: 32 word. P (unat w)}" by simp
    then have "unat (word_of_nat n :: 32 word) \<in> unat ` {w :: 32 word. P (unat w)}"
      by (rule imageI)
    with \<open>unat (word_of_nat n :: 32 word) = n\<close>
    show "n \<in> unat ` {w :: 32 word. P (unat w)}" by simp
  qed
  moreover have "inj_on unat {w :: 32 word. P (unat w)}"
    by (auto simp: inj_on_def word_unat_eq_iff)
  ultimately show ?thesis using card_image [of unat "{w :: 32 word. P (unat w)}"] by simp
qed

lemma otp_number_default: "otp_number otpDefaults w = unat w mod 900000 + 100000"
  by (simp add: otp_number_def otpDefaults_def Let_def)

text \<open>
  C5. With the default length 6 the code is \<open>randomNumber mod 900000 + 100000\<close>, a plain
  modulo reduction of the 32-bit random number with no resampling. Counting the 32-bit
  values behind each code shows the bias: \<open>2 ^ 32 = 4772 * 900000 + 167296\<close>, so each of
  the 167296 codes from 100000 to 267295 comes from 4773 values and every other code
  from 4772.
\<close>

theorem C5_modulo_bias:
  "card {w. otp_number otpDefaults w = c} =
     (if c < 100000 \<or> 999999 < c then 0 else if c < 267296 then 4773 else 4772)"
proof (cases "c < 100000 \<or> 999999 < c")
  case True
  have "unat w mod 900000 + 100000 \<noteq> c" for w :: "32 word"
  proof -
    have "unat w mod 900000 < 900000" by simp
    then show ?thesis using True by linarith
  qed
  then have "{w. otp_number otpDefaults w = c} = {}"
    by (simp add: otp_number_default)
  then show ?thesis using True by simp
next
  case False
  then have r: "c - 100000 < 900000" by linarith
  have "{w. otp_number otpDefaults w = c} = {w :: 32 word. unat w mod 900000 = c - 100000}"
    using False by (auto simp: otp_number_default)
  then have "card {w. otp_number otpDefaults w = c} =
      card {n. n < 2 ^ 32 \<and> n mod 900000 = c - 100000}"
    using card_word32 [of "\<lambda>n. n mod 900000 = c - 100000"] by simp
  also have "\<dots> = 2 ^ 32 div 900000 + (if c - 100000 < 2 ^ 32 mod 900000 then 1 else 0)"
    by (rule card_residue [OF r])
  also have "\<dots> = (if c < 267296 then 4773 else 4772)"
    using False by auto
  finally show ?thesis using False by simp
qed

lemma generateOTP_examples:
  "generateOTP otpDefaults 0 = ''100000'' \<and> generateOTP otpDefaults 900000 = ''100000'' \<and>
   generateOTP otpDefaults 4294967295 = ''267295''"
  by (simp add: generateOTP_def otp_number_def otpDefaults_def padStart_def digit_char_def)

section \<open>Facts about the credential store\<close>

lemma decimal_10_2_ten: "decimal_10_2 10 = 10"
proof -
  have "\<lfloor>(2001::rat) / 2\<rfloor> = 1000" by (simp add: floor_eq_iff)
  then show ?thesis by (simp add: decimal_10_2_def)
qed

lemma newest_mem: "newest xs = Some r \<Longrightarrow> r \<in> set xs"
  by (induction xs arbitrary: r) (auto split: option.splits if_splits)

lemma newest_None: "newest xs = None \<longleftrightarrow> xs = []"
  by (cases xs) (auto split: option.splits)

lemma findActive_SomeD:
  assumes "findActiveByTransaction db now ref = Some r"
  shows "r \<in> set db" and "transactionReference r = ref" and "is_live now r"
  using newest_mem [OF assms [unfolded findActiveByTransaction_def]] by auto

lemma findActive_None:
  "findActiveByTransaction db now ref = None \<longleftrightarrow>
     (\<forall>r \<in> set db. transactionReference r = ref \<longrightarrow> \<not> is_live now r)"
  by (auto simp: findActiveByTransaction_def newest_None filter_empty_conv)


lemma update_by_id_db:
  assumes "update_by_id db i f = Inr (r', db')"
  shows "db' = map (\<lambda>x. if otp_id x = i then f x else x) db"
  using assms by (auto simp: update_by_id_def split: list.splits)

lemma unique_ids_eq:
  assumes "unique_ids db" "x \<in> set db" "y \<in> set db" "otp_id x = otp_id y"
  shows "x = y"
  using assms by (auto simp: unique_ids_def distinct_map inj_on_def)




lemma map_otp_id_preserved:
  assumes "\<And>x. otp_id (g x) = otp_id x"
  shows "map otp_id (map g db) = map otp_id db"
  using assms by (induction db) auto



section \<open>The station service on the credential \<open>row0\<close>\<close>

lemmas station_eval =
  verifyOTPForStation_def findActiveByTransaction_def is_live_def row0_def stationDefaults_def
  verifyOTP_def markInProgress_def incrementAttempts_def update_by_id_def pulses_of_def


lemma find_row0_locked:
  "findActiveByTransaction
     [row0\<lparr>status := InProgress, stationId := Some ''S1'', verifiedAt := Some 1000\<rparr>] 2000 ''WS-1'' =
   Some (row0\<lparr>status := InProgress, stationId := Some ''S1'', verifiedAt := Some 1000\<rparr>)"
  by (simp add: findActiveByTransaction_def is_live_def row0_def)


lemma pulses_default: "pulses_of stationDefaults 10 = 10000"
  by (simp add: pulses_of_def stationDefaults_def floor_eq_iff)


section \<open>One live credential per reference\<close>

lemma distinct_refs_update:
  assumes "distinct (map transactionReference (filter P db))"
    and "\<And>x. x \<in> set db \<Longrightarrow> Q (g x) \<Longrightarrow> P x"
    and "\<And>x. transactionReference (g x) = transactionReference x"
  shows "distinct (map transactionReference (filter Q (map g db)))"
  using assms(1,2)
proof (induction db)
  case Nil
  then show ?case by simp
next
  case (Cons a db)
  have IH: "distinct (map transactionReference (filter Q (map g db)))"
    using Cons by (auto split: if_splits)
  show ?case
  proof (cases "Q (g a)")
    case False
    with IH show ?thesis by simp
  next
    case True
    then have Pa: "P a" using Cons.prems(2) by simp
    have "transactionReference a \<notin> transactionReference ` set (filter Q (map g db))"
    proof
      assume "transactionReference a \<in> transactionReference ` set (filter Q (map g db))"
      then obtain y where y: "y \<in> set db" "Q (g y)"
        "transactionReference (g y) = transactionReference a"
        by auto
      then have "P y" using Cons.prems(2) by simp
      with y(1) have "y \<in> set (filter P db)" by simp
      then have "transactionReference y \<in> transactionReference ` set (filter P db)"
        by (rule imageI)
      moreover have "transactionReference y = transactionReference a"
        using y(3) assms(3) [of y] by simp
      ultimately have "transactionReference a \<in> transactionReference ` set (filter P db)"
        by simp
      with Cons.prems(1) Pa show False by simp
    qed
    with IH True show ?thesis by (simp add: assms(3))
  qed
qed

lemma one_live_update:
  assumes "one_live_per_reference now db"
    and "\<And>x. x \<in> set db \<Longrightarrow> is_live later (g x) \<Longrightarrow> is_live now x"
    and "\<And>x. transactionReference (g x) = transactionReference x"
  shows "one_live_per_reference later (map g db)"
  using distinct_refs_update [OF assms(1) [unfolded one_live_per_reference_def] assms(2,3)]
  by (simp add: one_live_per_reference_def)

lemma one_live_later:
  assumes "one_live_per_reference now db" "now \<le> later"
  shows "one_live_per_reference later db"
proof -
  have "one_live_per_reference later (map (\<lambda>x. x) db)"
    using assms(2) by (intro one_live_update [OF assms(1)]) (auto simp: is_live_def)
  then show ?thesis by simp
qed

lemma unique_ids_update:
  assumes "unique_ids db" "\<And>x. otp_id (g x) = otp_id x"
  shows "unique_ids (map g db)"
proof -
  have "map otp_id (map g db) = map otp_id db"
    by (rule map_otp_id_preserved) (rule assms(2))
  with assms(1) show ?thesis unfolding unique_ids_def by (simp only:)
qed

text \<open>The writes of the repository keep the ids unique and one credential live per reference.\<close>

lemma expired_fields:
  "status (apply_updates (no_updates\<lparr>u_status := Some Expired\<rparr>) x) = Expired"
  "otp_id (apply_updates (no_updates\<lparr>u_status := Some Expired\<rparr>) x) = otp_id x"
  "transactionReference (apply_updates (no_updates\<lparr>u_status := Some Expired\<rparr>) x) =
     transactionReference x"
  by (simp_all add: apply_updates_def no_updates_def)

lemma used_fields:
  "status (apply_updates (no_updates\<lparr>u_status := Some Used, u_usedAt := Some t\<rparr>) x) = Used"
  "otp_id (apply_updates (no_updates\<lparr>u_status := Some Used, u_usedAt := Some t\<rparr>) x) = otp_id x"
  "transactionReference (apply_updates (no_updates\<lparr>u_status := Some Used, u_usedAt := Some t\<rparr>) x) =
     transactionReference x"
  by (simp_all add: apply_updates_def no_updates_def)

lemma table_ok_update:
  assumes "table_ok now db"
    and "\<And>x. x \<in> set db \<Longrightarrow> is_live now (g x) \<Longrightarrow> is_live now x"
    and "\<And>x. transactionReference (g x) = transactionReference x"
    and "\<And>x. otp_id (g x) = otp_id x"
  shows "table_ok now (map g db)"
  using assms unique_ids_update [of db g] one_live_update [of now db now g]
  unfolding table_ok_def by blast

lemma update_expired_ok:
  assumes "update db i (no_updates\<lparr>u_status := Some Expired\<rparr>) = Inr (r', db')"
    and "table_ok now db"
  shows "table_ok now db'"
proof -
  from assms(1) have "db' = map (\<lambda>x. if otp_id x = i
      then apply_updates (no_updates\<lparr>u_status := Some Expired\<rparr>) x else x) db"
    by (auto simp: update_def dest: update_by_id_db split: if_splits)
  moreover have "table_ok now (map (\<lambda>x. if otp_id x = i
      then apply_updates (no_updates\<lparr>u_status := Some Expired\<rparr>) x else x) db)"
    by (rule table_ok_update [OF assms(2)]) (simp_all add: is_live_def expired_fields split: if_splits)
  ultimately show ?thesis by simp
qed

lemma markAsUsed_ok:
  assumes "markAsUsed db t i = Inr (r', db')"
    and "table_ok now db"
  shows "table_ok now db'"
proof -
  from assms(1) have "db' = map (\<lambda>x. if otp_id x = i
      then apply_updates (no_updates\<lparr>u_status := Some Used, u_usedAt := Some t\<rparr>) x else x) db"
    by (auto simp: markAsUsed_def update_def dest: update_by_id_db split: if_splits)
  moreover have "table_ok now (map (\<lambda>x. if otp_id x = i
      then apply_updates (no_updates\<lparr>u_status := Some Used, u_usedAt := Some t\<rparr>) x else x) db)"
    by (rule table_ok_update [OF assms(2)]) (simp_all add: is_live_def used_fields split: if_splits)
  ultimately show ?thesis by simp
qed

lemma incrementAttempts_ok:
  assumes "incrementAttempts db i = Inr (r', db')"
    and "table_ok now db"
  shows "table_ok now db'"
proof -
  let ?f = "\<lambda>r. r\<lparr>attempts := attempts r + 1,
              status := (if attempts r + 1 \<ge> maxAttempts r then Blocked else status r)\<rparr>"
  from assms(1) have "db' = map (\<lambda>x. if otp_id x = i then ?f x else x) db"
    unfolding incrementAttempts_def by (rule update_by_id_db)
  moreover have "table_ok now (map (\<lambda>x. if otp_id x = i then ?f x else x) db)"
    by (rule table_ok_update [OF assms(2)]) (simp_all add: is_live_def split: if_splits)
  ultimately show ?thesis by simp
qed

lemma markInProgress_ok:
  assumes "markInProgress db t (otp_id r) station = Inr (r', db')"
    and "table_ok now db" and "r \<in> set db" and "is_live now r"
  shows "table_ok now db'"
proof -
  let ?f = "\<lambda>r. r\<lparr>status := InProgress, stationId := Some station, verifiedAt := Some t\<rparr>"
  from assms(1) have "db' = map (\<lambda>x. if otp_id x = otp_id r then ?f x else x) db"
    unfolding markInProgress_def by (rule update_by_id_db)
  moreover have "table_ok now (map (\<lambda>x. if otp_id x = otp_id r then ?f x else x) db)"
  proof (rule table_ok_update [OF assms(2)])
    fix x assume x: "x \<in> set db" "is_live now (if otp_id x = otp_id r then ?f x else x)"
    show "is_live now x"
    proof (cases "otp_id x = otp_id r")
      case True
      with assms(2,3) x(1) have "x = r" by (auto simp: table_ok_def intro: unique_ids_eq)
      with assms(4) show ?thesis by simp
    next
      case False
      with x(2) show ?thesis by simp
    qed
  qed simp_all
  ultimately show ?thesis by simp
qed

lemma markExpired_ok:
  assumes "table_ok now db"
  shows "table_ok now (snd (markExpired db t))"
proof -
  have "table_ok now (map (\<lambda>r. if status r = Active \<and> expiresAt r \<le> t
                                 then r\<lparr>status := Expired\<rparr> else r) db)"
    by (rule table_ok_update [OF assms]) (simp_all add: is_live_def split: if_splits)
  then show ?thesis by (simp add: markExpired_def)
qed

lemma fold_max_ge: "(a::nat) \<le> fold max xs a"
  by (induction xs arbitrary: a) (auto intro: order_trans [OF max.cobounded2])

lemma fold_max_mem: "(x::nat) \<in> set xs \<Longrightarrow> x \<le> fold max xs a"
proof (induction xs arbitrary: a)
  case Nil
  then show ?case by simp
next
  case (Cons y ys)
  show ?case
  proof (cases "x = y")
    case True
    have "max y a \<le> fold max ys (max y a)" by (rule fold_max_ge)
    with True show ?thesis by simp
  next
    case False
    with Cons show ?thesis by simp
  qed
qed

lemma next_id_fresh: "x \<in> set db \<Longrightarrow> otp_id x < next_id db"
  using fold_max_mem [of "otp_id x" "map otp_id db" 0] by (simp add: next_id_def less_Suc_eq_le)

lemma create_ok:
  assumes "create db t ref hash ltrs expires maxAtt = Inr (row, db')"
    and "table_ok now db"
    and "\<And>x. x \<in> set db \<Longrightarrow> transactionReference x = ref \<Longrightarrow> \<not> is_live now x"
  shows "table_ok now db'"
proof -
  from assms(1) have db': "db' = db @ [row]" and row: "otp_id row = next_id db"
    "transactionReference row = ref"
    by (auto simp: create_def Let_def split: if_splits)
  have "otp_id row \<notin> otp_id ` set db"
    using next_id_fresh [of _ db] row(1) by force
  with assms(2) have u: "unique_ids db'"
    by (simp add: table_ok_def unique_ids_def db')
  have "ref \<notin> transactionReference ` set (filter (is_live now) db)"
    using assms(3) by auto
  with assms(2) have "one_live_per_reference now db'"
    by (simp add: table_ok_def one_live_per_reference_def db' row(2))
  with u show ?thesis by (simp add: table_ok_def)
qed


lemma one_live_eq:
  assumes "one_live_per_reference now db" "x \<in> set db" "y \<in> set db"
    and "is_live now x" "is_live now y" "transactionReference x = transactionReference y"
  shows "x = y"
proof -
  from assms(1) have "inj_on transactionReference (set (filter (is_live now) db))"
    by (simp add: one_live_per_reference_def distinct_map)
  moreover have "x \<in> set (filter (is_live now) db)" "y \<in> set (filter (is_live now) db)"
    using assms(2-5) by simp_all
  ultimately show ?thesis using assms(6) by (auto dest: inj_onD)
qed

text \<open>The services keep both.\<close>

lemma station_ok:
  assumes "table_ok now db"
  shows "table_ok now (snd (verifyOTPForStation scfg H db now ref code station))"
proof -
  obtain out db' where e: "verifyOTPForStation scfg H db now ref code station = (out, db')"
    by (cases "verifyOTPForStation scfg H db now ref code station")
  from e assms have "table_ok now db'"
    by (auto simp: verifyOTPForStation_def
        split: if_splits option.splits sum.splits bool.splits prod.splits
        dest: update_expired_ok incrementAttempts_ok
        intro: markInProgress_ok findActive_SomeD)
  with e show ?thesis by simp
qed

lemma customer_ok:
  assumes "table_ok now (otps s)"
  shows "table_ok now (otps (snd (OtpService_verifyOTP cfg H s now ref code)))"
proof -
  obtain out s' where e: "OtpService_verifyOTP cfg H s now ref code = (out, s')"
    by (cases "OtpService_verifyOTP cfg H s now ref code")
  from e assms have "table_ok now (otps s')"
    by (auto simp: OtpService_verifyOTP_def drop_cached_def Let_def
        split: if_splits option.splits sum.splits bool.splits prod.splits
        dest: update_expired_ok incrementAttempts_ok markAsUsed_ok)
  with e show ?thesis by simp
qed

lemma expire_existing:
  assumes ok: "table_ok now db"
    and f: "findActiveByTransaction db now ref = Some r"
    and u: "update db (otp_id r) (no_updates\<lparr>u_status := Some Expired\<rparr>) = Inr (r', db1)"
  shows "table_ok now db1"
    and "\<And>x. x \<in> set db1 \<Longrightarrow> transactionReference x = ref \<Longrightarrow> \<not> is_live now x"
    and "\<exists>x \<in> set db1. otp_id x = otp_id r \<and> status x = Expired"
proof -
  let ?g = "\<lambda>x. if otp_id x = otp_id r
      then apply_updates (no_updates\<lparr>u_status := Some Expired\<rparr>) x else x"
  from u have db1: "db1 = map ?g db"
    by (auto simp: update_def dest: update_by_id_db split: if_splits)
  from findActive_SomeD [OF f] have r: "r \<in> set db" "transactionReference r = ref" "is_live now r"
    by auto
  show "table_ok now db1" by (rule update_expired_ok [OF u ok])
  show "\<not> is_live now x" if "x \<in> set db1" "transactionReference x = ref" for x
  proof
    assume l: "is_live now x"
    from that(1) obtain y where y: "y \<in> set db" "x = ?g y" unfolding db1 by auto
    have n: "otp_id y \<noteq> otp_id r"
    proof
      assume "otp_id y = otp_id r"
      with y(2) have "status x = Expired" by (simp add: expired_fields)
      with l show False by (simp add: is_live_def)
    qed
    with y(2) have "x = y" by simp
    with y(1) l that(2) r ok have "y = r"
      by (auto simp: table_ok_def intro: one_live_eq)
    with n show False by simp
  qed
  from r(1) have "?g r \<in> ?g ` set db" by (rule imageI)
  then have "?g r \<in> set db1" unfolding db1 by (simp only: set_map)
  then show "\<exists>x \<in> set db1. otp_id x = otp_id r \<and> status x = Expired"
    by (rule bexI [rotated]) (simp add: expired_fields)
qed

lemma expire_step_ok:
  assumes ok: "table_ok now db"
    and st: "(case findActiveByTransaction db now ref of
                None \<Rightarrow> Inr db
              | Some existingOtp \<Rightarrow>
                  (case update db (otp_id existingOtp) (no_updates\<lparr>u_status := Some Expired\<rparr>) of
                     Inl e \<Rightarrow> Inl e
                   | Inr (_, db') \<Rightarrow> Inr db')) = Inr db1"
  shows "table_ok now db1"
    and "\<And>x. x \<in> set db1 \<Longrightarrow> transactionReference x = ref \<Longrightarrow> \<not> is_live now x"
proof -
  have "table_ok now db1 \<and> (\<forall>x \<in> set db1. transactionReference x = ref \<longrightarrow> \<not> is_live now x)"
  proof (cases "findActiveByTransaction db now ref")
    case None
    with st have "db1 = db" by simp
    with ok None show ?thesis by (simp add: findActive_None)
  next
    case (Some r)
    with st obtain r' where u: "update db (otp_id r) (no_updates\<lparr>u_status := Some Expired\<rparr>) =
        Inr (r', db1)"
      by (auto split: sum.splits prod.splits)
    from expire_existing(1,2) [OF ok Some u] show ?thesis by blast
  qed
  then show "table_ok now db1"
    and "\<And>x. x \<in> set db1 \<Longrightarrow> transactionReference x = ref \<Longrightarrow> \<not> is_live now x"
    by blast+
qed

lemma generate_otps:
  "otps (snd (OtpService_generateOTP cfg H s now rnd ref ltrs)) = otps s \<or>
   (\<exists>db1. (case findActiveByTransaction (otps s) now ref of
                None \<Rightarrow> Inr (otps s)
              | Some existingOtp \<Rightarrow>
                  (case update (otps s) (otp_id existingOtp)
                          (no_updates\<lparr>u_status := Some Expired\<rparr>) of
                     Inl e \<Rightarrow> Inl e
                   | Inr (_, db') \<Rightarrow> Inr db')) = Inr db1 \<and>
      (otps (snd (OtpService_generateOTP cfg H s now rnd ref ltrs)) = db1 \<or>
       (\<exists>row. create db1 now ref (H (generateOTP cfg rnd)) ltrs
                 (now + expirationMinutes cfg * 60000) (cfg_maxAttempts cfg) =
               Inr (row, otps (snd (OtpService_generateOTP cfg H s now rnd ref ltrs))))))"
  by (simp add: OtpService_generateOTP_def Let_def
      split: option.split sum.split prod.split)

lemma generate_ok:
  assumes ok: "table_ok now (otps s)"
  shows "table_ok now (otps (snd (OtpService_generateOTP cfg H s now rnd ref ltrs)))"
proof -
  let ?db' = "otps (snd (OtpService_generateOTP cfg H s now rnd ref ltrs))"
  from generate_otps [of cfg H s now rnd ref ltrs]
  consider "?db' = otps s"
    | db1 where "(case findActiveByTransaction (otps s) now ref of
                None \<Rightarrow> Inr (otps s)
              | Some existingOtp \<Rightarrow>
                  (case update (otps s) (otp_id existingOtp)
                          (no_updates\<lparr>u_status := Some Expired\<rparr>) of
                     Inl e \<Rightarrow> Inl e
                   | Inr (_, db') \<Rightarrow> Inr db')) = Inr db1"
      "?db' = db1 \<or>
       (\<exists>row. create db1 now ref (H (generateOTP cfg rnd)) ltrs
                 (now + expirationMinutes cfg * 60000) (cfg_maxAttempts cfg) = Inr (row, ?db'))"
    by blast
  then show ?thesis
  proof cases
    case 1
    with ok show ?thesis by simp
  next
    case (2 db1)
    note e = expire_step_ok [OF ok 2(1)]
    from 2(2) show ?thesis
    proof
      assume "?db' = db1"
      with e(1) show ?thesis by simp
    next
      assume "\<exists>row. create db1 now ref (H (generateOTP cfg rnd)) ltrs
                 (now + expirationMinutes cfg * 60000) (cfg_maxAttempts cfg) = Inr (row, ?db')"
      then obtain row where "create db1 now ref (H (generateOTP cfg rnd)) ltrs
                 (now + expirationMinutes cfg * 60000) (cfg_maxAttempts cfg) = Inr (row, ?db')"
        by blast
      from create_ok [OF this e(1) e(2)] show ?thesis .
    qed
  qed
qed


section \<open>Facts about station verification\<close>





section \<open>Claims on station verification\<close>








text \<open>The lookup never returns a used, expired or blocked row.\<close>

lemma found_is_open:
  assumes "findActiveByTransaction db now ref = Some r"
  shows "status r = Active \<or> status r = InProgress"
  using findActive_SomeD(3) [OF assms] by (simp add: is_live_def)

text \<open>
  C3. Three wrong codes against a credential with \<open>maxAttempts = 3\<close>: the first two fail
  with 400 and the attempts left, the third fails with 400 (blocked) and leaves the
  status \<open>blocked\<close>. Every further call, with the correct code or a wrong one, fails with
  404, not with 400 (blocked): \<open>findActiveByTransaction\<close> returns \<open>active\<close> and
  \<open>in_progress\<close> rows only, so the service's test for a blocked record is never reached.
\<close>

theorem C3_blocked_credential_not_found:
  "verifyOTPForStation stationDefaults (\<lambda>s. s) [row0] 1000 ''WS-1'' ''000000'' ''S1'' =
     (Inl (AppError (InvalidOtpRemaining 2) 400), [row0\<lparr>attempts := 1\<rparr>]) \<and>
   verifyOTPForStation stationDefaults (\<lambda>s. s) [row0\<lparr>attempts := 1\<rparr>] 2000 ''WS-1'' ''000000'' ''S1'' =
     (Inl (AppError (InvalidOtpRemaining 1) 400), [row0\<lparr>attempts := 2\<rparr>]) \<and>
   verifyOTPForStation stationDefaults (\<lambda>s. s) [row0\<lparr>attempts := 2\<rparr>] 3000 ''WS-1'' ''000000'' ''S1'' =
     (Inl (AppError OtpBlocked 400), [row0\<lparr>attempts := 3, status := Blocked\<rparr>]) \<and>
   verifyOTPForStation stationDefaults (\<lambda>s. s) [row0\<lparr>attempts := 3, status := Blocked\<rparr>]
       4000 ''WS-1'' ''100000'' ''S1'' =
     (Inl (AppError OtpNotFoundOrExpired 404), [row0\<lparr>attempts := 3, status := Blocked\<rparr>]) \<and>
   verifyOTPForStation stationDefaults (\<lambda>s. s) [row0\<lparr>attempts := 3, status := Blocked\<rparr>]
       4000 ''WS-1'' ''000000'' ''S1'' =
     (Inl (AppError OtpNotFoundOrExpired 404), [row0\<lparr>attempts := 3, status := Blocked\<rparr>])"
  by (simp add: station_eval)

section \<open>Claims on customer verification\<close>

text \<open>The system after \<open>generateOTP\<close> issued \<open>row0\<close> in \<open>sys0\<close>: the credential and its cache entry.\<close>

lemma issue_sys0:
  "OtpService_generateOTP otpDefaults (\<lambda>s. s) sys0 0 0 ''WS-1'' 10 =
     (Inr \<lparr>is_otp = ''100000'', is_transactionReference = ''WS-1'', is_liters = 10,
           is_expiresAt = 600000, is_expiresInMinutes = 10\<rparr>,
      sys1)"
proof -
  have g: "generateOTP otpDefaults 0 = ''100000''" using generateOTP_examples by simp
  show ?thesis
    by (simp add: OtpService_generateOTP_def sys0_def findActiveByTransaction_def g create_def decimal_10_2_ten
        next_id_def row0_def sys1_def redis_setEx_def getCacheKey_def Let_def)
      (simp add: otpDefaults_def)
qed

text \<open>
  C4. The claim fails whenever the record is served from the cache. The record rebuilt
  from a cache entry has no \<open>id\<close>, and the attempt counter is only touched under
  \<open>if (otpRecord.id)\<close>: a wrong code against a cached, unexpired credential is answered
  with 400 (invalid) and neither the table nor the cache changes. The durable counter
  is not incremented and the credential is never blocked, however many wrong codes follow.
\<close>

theorem C4_cached_attempt_not_counted:
  assumes "cache_on cfg s"
    and "redis_get (redis s) now (getCacheKey ref) = Some c"
    and "now < c_expiresAt c"
    and "verifyOTP H code (c_otpHash c) = Inr False"
  shows "OtpService_verifyOTP cfg H s now ref code = (Inl (AppError InvalidOtp 400), s)"
  using assms by (simp add: OtpService_verifyOTP_def lookup_otp_def)

text \<open>
  C10. The claim fails whenever the record is served from the cache. \<open>markAsUsed\<close> runs
  under \<open>if (otpRecord.id)\<close>, and the cached record has no \<open>id\<close>: the correct code
  against a cached, unexpired credential is answered with success and only the cache entry
  is deleted. The table is unchanged, so the credential keeps its status and a station
  can still redeem it.
\<close>

theorem C10_cached_verify_not_consumed:
  assumes "cache_on cfg s"
    and "redis_get (redis s) now (getCacheKey ref) = Some c"
    and "now < c_expiresAt c"
    and "verifyOTP H code (c_otpHash c) = Inr True"
  shows "OtpService_verifyOTP cfg H s now ref code =
           (Inr \<lparr>vr_transactionReference = ref, vr_liters = c_liters c\<rparr>,
            s\<lparr>redis := redis_del (redis s) (getCacheKey ref)\<rparr>)"
  using assms by (simp add: OtpService_verifyOTP_def lookup_otp_def drop_cached_def cache_on_def)

lemma sys1_cache:
  "cache_on otpDefaults sys1"
  "redis_get (redis sys1) 1000 (getCacheKey ''WS-1'') =
     Some \<lparr>c_otpHash = ''100000'', c_liters = 10, c_expiresAt = 600000, c_attempts = 0\<rparr>"
  by (simp_all add: cache_on_def otpDefaults_def sys1_def sys0_def redis_get_def getCacheKey_def)

text \<open>The theorem on \<open>sys1\<close>: the wrong code 000000 against the freshly issued credential.\<close>

theorem C4_cached_attempt_not_counted_witness:
  "OtpService_verifyOTP otpDefaults (\<lambda>s. s) sys1 1000 ''WS-1'' ''000000'' =
     (Inl (AppError InvalidOtp 400), sys1) \<and>
   map attempts (otps sys1) = [0] \<and> map status (otps sys1) = [Active]"
proof -
  have w: "verifyOTP (\<lambda>s. s) ''000000''
      (c_otpHash \<lparr>c_otpHash = ''100000'', c_liters = 10, c_expiresAt = 600000, c_attempts = 0\<rparr>) =
      Inr False"
    by (simp add: verifyOTP_def)
  have e: "(1000::int) < c_expiresAt
      \<lparr>c_otpHash = ''100000'', c_liters = 10, c_expiresAt = 600000, c_attempts = 0\<rparr>"
    by simp
  from C4_cached_attempt_not_counted [OF sys1_cache e w]
  show ?thesis by (simp add: sys1_def row0_def)
qed

text \<open>
  The theorem on \<open>sys1\<close>: the customer verifies the code 100000, the credential stays
  \<open>row0\<close>, and the station S1 is then authorized to dispense.
\<close>

theorem C10_cached_verify_not_consumed_witness:
  "OtpService_verifyOTP otpDefaults (\<lambda>s. s) sys1 1000 ''WS-1'' ''100000'' =
     (Inr \<lparr>vr_transactionReference = ''WS-1'', vr_liters = 10\<rparr>,
      sys1\<lparr>redis := \<lparr>isOpen = True, entries = []\<rparr>\<rparr>) \<and>
   otps (sys1\<lparr>redis := \<lparr>isOpen = True, entries = []\<rparr>\<rparr>) = [row0] \<and>
   verifyOTPForStation stationDefaults (\<lambda>s. s) [row0] 2000 ''WS-1'' ''100000'' ''S1'' =
     (Inr \<lparr>sr_transactionReference = ''WS-1'', sr_stationId = ''S1'', sr_liters = 10,
           sr_pulses = 10000, sr_status = InProgress, sr_verifiedAt = Some 2000\<rparr>,
      [row0\<lparr>status := InProgress, stationId := Some ''S1'', verifiedAt := Some 2000\<rparr>])"
proof -
  have w: "verifyOTP (\<lambda>s. s) ''100000''
      (c_otpHash \<lparr>c_otpHash = ''100000'', c_liters = 10, c_expiresAt = 600000, c_attempts = 0\<rparr>) =
      Inr True"
    by (simp add: verifyOTP_def)
  have e: "(1000::int) < c_expiresAt
      \<lparr>c_otpHash = ''100000'', c_liters = 10, c_expiresAt = 600000, c_attempts = 0\<rparr>"
    by simp
  have st: "verifyOTPForStation stationDefaults (\<lambda>s. s) [row0] 2000 ''WS-1'' ''100000'' ''S1'' =
     (Inr \<lparr>sr_transactionReference = ''WS-1'', sr_stationId = ''S1'', sr_liters = 10,
           sr_pulses = 10000, sr_status = InProgress, sr_verifiedAt = Some 2000\<rparr>,
      [row0\<lparr>status := InProgress, stationId := Some ''S1'', verifiedAt := Some 2000\<rparr>])"
    by (simp add: verifyOTPForStation_def findActiveByTransaction_def is_live_def row0_def
        verifyOTP_def markInProgress_def update_by_id_def pulses_default)
  from C10_cached_verify_not_consumed [OF sys1_cache e w] st
  show ?thesis by (simp add: sys1_def sys0_def redis_del_def getCacheKey_def)
qed

text \<open>
  With the cache disconnected the record is the row of the table: the same call marks it
  used, and the station is then answered with 404.
\<close>

lemma uncached_verify_consumes:
  "OtpService_verifyOTP otpDefaults (\<lambda>s. s) (sys1\<lparr>redis := \<lparr>isOpen = False, entries = []\<rparr>\<rparr>)
       1000 ''WS-1'' ''100000'' =
     (Inr \<lparr>vr_transactionReference = ''WS-1'', vr_liters = 10\<rparr>,
      sys1\<lparr>redis := \<lparr>isOpen = False, entries = []\<rparr>,
           otps := [row0\<lparr>status := Used, usedAt := Some 1000\<rparr>]\<rparr>) \<and>
   verifyOTPForStation stationDefaults (\<lambda>s. s) [row0\<lparr>status := Used, usedAt := Some 1000\<rparr>]
       2000 ''WS-1'' ''100000'' ''S1'' =
     (Inl (AppError OtpNotFoundOrExpired 404), [row0\<lparr>status := Used, usedAt := Some 1000\<rparr>])"
  by (simp add: OtpService_verifyOTP_def lookup_otp_def cache_on_def drop_cached_def sys1_def sys0_def
      findActiveByTransaction_def is_live_def row0_def verifyOTP_def markAsUsed_def update_def
      update_by_id_def apply_updates_def no_updates_def verifyOTPForStation_def)

section \<open>Claims on the credential invariant\<close>

text \<open>
  A call of \<open>generateOTP\<close> that runs alone is its three round trips one after another on
  the state each leaves.
\<close>

lemma generateOTP_round_trips:
  "OtpService_generateOTP cfg H s now rnd ref ltrs =
     (case issue_find s now ref of
        Inl e \<Rightarrow> (Inl e, s)
      | Inr existing \<Rightarrow>
          (case issue_expire s existing of
             Inl e \<Rightarrow> (Inl e, s)
           | Inr s1 \<Rightarrow> issue_insert cfg H s1 now rnd ref ltrs))"
proof (cases "find (\<lambda>t. tx_reference t = ref) (transactions s)")
  case None
  then show ?thesis by (simp add: OtpService_generateOTP_def issue_find_def)
next
  case (Some t)
  show ?thesis
  proof (cases "tx_status t = Completed")
    case False
    with Some show ?thesis by (simp add: OtpService_generateOTP_def issue_find_def)
  next
    case True
    show ?thesis
    proof (cases "findActiveByTransaction (otps s) now ref")
      case None
      with Some True show ?thesis
        by (simp add: OtpService_generateOTP_def issue_find_def issue_expire_def
            issue_insert_def Let_def split: sum.split prod.split)
    next
      case (Some r)
      show ?thesis
      proof (cases "update (otps s) (otp_id r) (no_updates\<lparr>u_status := Some Expired\<rparr>)")
        case (Inl e)
        with \<open>find (\<lambda>t. tx_reference t = ref) (transactions s) = Some t\<close> True Some
        show ?thesis
          by (simp add: OtpService_generateOTP_def issue_find_def issue_expire_def)
      next
        case (Inr p)
        obtain r' db' where p: "p = (r', db')" by (cases p)
        from \<open>find (\<lambda>t. tx_reference t = ref) (transactions s) = Some t\<close> True Some Inr p
        show ?thesis
          by (auto simp: OtpService_generateOTP_def issue_find_def issue_expire_def
              issue_insert_def Let_def split: sum.split prod.split)
      qed
    qed
  qed
qed

text \<open>
  C8, as the claim states it, fails, in two ways. First, \<open>generateOTP\<close> looks for the
  credential to expire with \<open>findActiveByTransaction\<close>, which skips a row whose expiry
  time has passed. A credential that a station verified (status \<open>in_progress\<close>) and
  whose time ran out at 600000 is therefore left as it is by an issue at 700000, and the
  sweep, which only touches \<open>active\<close> rows, leaves it too: the reference has an
  \<open>in_progress\<close> and an \<open>active\<close> credential. Second, two calls of \<open>generateOTP\<close> that
  overlap on \<open>sys1\<close>, a table that has the invariant, both read the live credential
  \<open>row0\<close> before either writes, both set it to \<open>expired\<close> and both insert: the reference
  has two \<open>active\<close> credentials, both live.
\<close>

theorem C8_counterexample:
  "one_open_per_reference
     [row0\<lparr>status := InProgress, stationId := Some ''S1'', verifiedAt := Some 1000\<rparr>] \<and>
   otps (snd (markExpiredOTPs
     (snd (OtpService_generateOTP otpDefaults (\<lambda>s. s)
        (sys1\<lparr>otps := [row0\<lparr>status := InProgress, stationId := Some ''S1'',
                             verifiedAt := Some 1000\<rparr>]\<rparr>)
        700000 0 ''WS-1'' 10))
     800000)) =
     [row0\<lparr>status := InProgress, stationId := Some ''S1'', verifiedAt := Some 1000\<rparr>,
      \<lparr>otp_id = 2, transactionReference = ''WS-1'', otpHash = ''100000'', liters = 10,
       status = Active, stationId = None, attempts = 0, maxAttempts = 3, usedAt = None,
       verifiedAt = None, expiresAt = 1300000, createdAt = 700000\<rparr>] \<and>
   \<not> one_open_per_reference
     [row0\<lparr>status := InProgress, stationId := Some ''S1'', verifiedAt := Some 1000\<rparr>,
      \<lparr>otp_id = 2, transactionReference = ''WS-1'', otpHash = ''100000'', liters = 10,
       status = Active, stationId = None, attempts = 0, maxAttempts = 3, usedAt = None,
       verifiedAt = None, expiresAt = 1300000, createdAt = 700000\<rparr>] \<and>
   one_open_per_reference (otps sys1) \<and> table_ok 1000 (otps sys1) \<and>
   map_option otps
     (overlapping_generateOTP otpDefaults (\<lambda>s. s) sys1 1000 0 1001 900001 ''WS-1'' 10) =
     Some [row0\<lparr>status := Expired\<rparr>,
      \<lparr>otp_id = 2, transactionReference = ''WS-1'', otpHash = ''100000'', liters = 10,
       status = Active, stationId = None, attempts = 0, maxAttempts = 3, usedAt = None,
       verifiedAt = None, expiresAt = 601000, createdAt = 1000\<rparr>,
      \<lparr>otp_id = 3, transactionReference = ''WS-1'', otpHash = ''100001'', liters = 10,
       status = Active, stationId = None, attempts = 0, maxAttempts = 3, usedAt = None,
       verifiedAt = None, expiresAt = 601001, createdAt = 1001\<rparr>] \<and>
   \<not> one_open_per_reference
     [row0\<lparr>status := Expired\<rparr>,
      \<lparr>otp_id = 2, transactionReference = ''WS-1'', otpHash = ''100000'', liters = 10,
       status = Active, stationId = None, attempts = 0, maxAttempts = 3, usedAt = None,
       verifiedAt = None, expiresAt = 601000, createdAt = 1000\<rparr>,
      \<lparr>otp_id = 3, transactionReference = ''WS-1'', otpHash = ''100001'', liters = 10,
       status = Active, stationId = None, attempts = 0, maxAttempts = 3, usedAt = None,
       verifiedAt = None, expiresAt = 601001, createdAt = 1001\<rparr>] \<and>
   \<not> one_live_per_reference 2000
     [row0\<lparr>status := Expired\<rparr>,
      \<lparr>otp_id = 2, transactionReference = ''WS-1'', otpHash = ''100000'', liters = 10,
       status = Active, stationId = None, attempts = 0, maxAttempts = 3, usedAt = None,
       verifiedAt = None, expiresAt = 601000, createdAt = 1000\<rparr>,
      \<lparr>otp_id = 3, transactionReference = ''WS-1'', otpHash = ''100001'', liters = 10,
       status = Active, stationId = None, attempts = 0, maxAttempts = 3, usedAt = None,
       verifiedAt = None, expiresAt = 601001, createdAt = 1001\<rparr>]"
proof -
  have g: "generateOTP otpDefaults 0 = ''100000''" "generateOTP otpDefaults 900001 = ''100001''"
    by (simp_all add: generateOTP_def otp_number_def otpDefaults_def padStart_def digit_char_def)
  have c: "expirationMinutes otpDefaults = 10" "cfg_maxAttempts otpDefaults = 3"
    "cacheEnabled otpDefaults" "cacheTtlSeconds otpDefaults = 600"
    by (simp_all add: otpDefaults_def)
  have serial: "one_open_per_reference
     [row0\<lparr>status := InProgress, stationId := Some ''S1'', verifiedAt := Some 1000\<rparr>] \<and>
   otps (snd (markExpiredOTPs
     (snd (OtpService_generateOTP otpDefaults (\<lambda>s. s)
        (sys1\<lparr>otps := [row0\<lparr>status := InProgress, stationId := Some ''S1'',
                             verifiedAt := Some 1000\<rparr>]\<rparr>)
        700000 0 ''WS-1'' 10))
     800000)) =
     [row0\<lparr>status := InProgress, stationId := Some ''S1'', verifiedAt := Some 1000\<rparr>,
      \<lparr>otp_id = 2, transactionReference = ''WS-1'', otpHash = ''100000'', liters = 10,
       status = Active, stationId = None, attempts = 0, maxAttempts = 3, usedAt = None,
       verifiedAt = None, expiresAt = 1300000, createdAt = 700000\<rparr>] \<and>
   \<not> one_open_per_reference
     [row0\<lparr>status := InProgress, stationId := Some ''S1'', verifiedAt := Some 1000\<rparr>,
      \<lparr>otp_id = 2, transactionReference = ''WS-1'', otpHash = ''100000'', liters = 10,
       status = Active, stationId = None, attempts = 0, maxAttempts = 3, usedAt = None,
       verifiedAt = None, expiresAt = 1300000, createdAt = 700000\<rparr>]"
    by (simp add: one_open_per_reference_def row0_def OtpService_generateOTP_def sys1_def sys0_def
        findActiveByTransaction_def is_live_def g c create_def decimal_10_2_ten next_id_def
        redis_setEx_def getCacheKey_def markExpiredOTPs_def markExpired_def Let_def)
  have before: "one_open_per_reference (otps sys1) \<and> table_ok 1000 (otps sys1)"
    by (simp add: one_open_per_reference_def table_ok_def unique_ids_def
        one_live_per_reference_def is_live_def sys1_def sys0_def row0_def)
  have f: "issue_find sys1 1000 ''WS-1'' = Inr (Some row0)"
    "issue_find sys1 1001 ''WS-1'' = Inr (Some row0)"
    by (simp_all add: issue_find_def findActiveByTransaction_def is_live_def sys1_def sys0_def
        row0_def)
  have overlap: "map_option otps
     (overlapping_generateOTP otpDefaults (\<lambda>s. s) sys1 1000 0 1001 900001 ''WS-1'' 10) =
     Some [row0\<lparr>status := Expired\<rparr>,
      \<lparr>otp_id = 2, transactionReference = ''WS-1'', otpHash = ''100000'', liters = 10,
       status = Active, stationId = None, attempts = 0, maxAttempts = 3, usedAt = None,
       verifiedAt = None, expiresAt = 601000, createdAt = 1000\<rparr>,
      \<lparr>otp_id = 3, transactionReference = ''WS-1'', otpHash = ''100001'', liters = 10,
       status = Active, stationId = None, attempts = 0, maxAttempts = 3, usedAt = None,
       verifiedAt = None, expiresAt = 601001, createdAt = 1001\<rparr>]"
    unfolding overlapping_generateOTP_def f
    by (simp add: issue_expire_def issue_insert_def row0_def sys1_def sys0_def g c create_def
        decimal_10_2_ten next_id_def redis_setEx_def getCacheKey_def update_def
        update_by_id_def apply_updates_def no_updates_def Let_def)
  have after: "\<not> one_open_per_reference
     [row0\<lparr>status := Expired\<rparr>,
      \<lparr>otp_id = 2, transactionReference = ''WS-1'', otpHash = ''100000'', liters = 10,
       status = Active, stationId = None, attempts = 0, maxAttempts = 3, usedAt = None,
       verifiedAt = None, expiresAt = 601000, createdAt = 1000\<rparr>,
      \<lparr>otp_id = 3, transactionReference = ''WS-1'', otpHash = ''100001'', liters = 10,
       status = Active, stationId = None, attempts = 0, maxAttempts = 3, usedAt = None,
       verifiedAt = None, expiresAt = 601001, createdAt = 1001\<rparr>] \<and>
   \<not> one_live_per_reference 2000
     [row0\<lparr>status := Expired\<rparr>,
      \<lparr>otp_id = 2, transactionReference = ''WS-1'', otpHash = ''100000'', liters = 10,
       status = Active, stationId = None, attempts = 0, maxAttempts = 3, usedAt = None,
       verifiedAt = None, expiresAt = 601000, createdAt = 1000\<rparr>,
      \<lparr>otp_id = 3, transactionReference = ''WS-1'', otpHash = ''100001'', liters = 10,
       status = Active, stationId = None, attempts = 0, maxAttempts = 3, usedAt = None,
       verifiedAt = None, expiresAt = 601001, createdAt = 1001\<rparr>]"
    by (simp add: one_open_per_reference_def one_live_per_reference_def is_live_def row0_def)
  from serial before overlap after show ?thesis by blast
qed

text \<open>
  C8, amended: the invariant of calls that do not overlap. When every operation runs from
  its first to its last database round trip before the next one starts, at most one
  credential per transaction reference is live (status \<open>active\<close> or \<open>in_progress\<close> and not
  yet past its expiry time): given unique ids, issuing, station verification, customer
  verification, the sweep and the passing of time each keep it so. Issuing a credential
  for a reference that has a live one sets that one to \<open>expired\<close> and leaves the new
  credential as the only live one of the reference. Nothing of this is kept for calls
  that overlap, and nothing of it covers a row whose expiry time has passed.
\<close>

theorem C8_one_live_per_reference:
  assumes "table_ok now (otps s)"
  shows "table_ok now (otps (snd (OtpService_generateOTP cfg H s now rnd ref ltrs))) \<and>
         table_ok now (snd (verifyOTPForStation scfg H (otps s) now ref code station)) \<and>
         table_ok now (otps (snd (OtpService_verifyOTP cfg H s now ref code))) \<and>
         table_ok now (otps (snd (markExpiredOTPs s now))) \<and>
         (\<forall>later. now \<le> later \<longrightarrow> table_ok later (otps s)) \<and>
         (\<forall>r res s'. findActiveByTransaction (otps s) now ref = Some r \<and>
            OtpService_generateOTP cfg H s now rnd ref ltrs = (Inr res, s') \<longrightarrow>
              (\<exists>x \<in> set (otps s'). otp_id x = otp_id r \<and> status x = Expired) \<and>
              (\<forall>x \<in> set (otps s'). transactionReference x = ref \<and> is_live now x \<longrightarrow>
                 x = last (otps s')))"
proof -
  have sweep: "table_ok now (otps (snd (markExpiredOTPs s now)))"
    using markExpired_ok [OF assms, of now]
    by (cases "markExpired (otps s) now") (simp add: markExpiredOTPs_def)
  have later: "table_ok later (otps s)" if "now \<le> later" for later
    using assms one_live_later [OF _ that] by (simp add: table_ok_def)
  have issue: "(\<exists>x \<in> set (otps s'). otp_id x = otp_id r \<and> status x = Expired) \<and>
      (\<forall>x \<in> set (otps s'). transactionReference x = ref \<and> is_live now x \<longrightarrow> x = last (otps s'))"
    if f: "findActiveByTransaction (otps s) now ref = Some r"
      and g: "OtpService_generateOTP cfg H s now rnd ref ltrs = (Inr res, s')" for r res s'
  proof -
    from g f obtain r' db1 row where
      u: "update (otps s) (otp_id r) (no_updates\<lparr>u_status := Some Expired\<rparr>) = Inr (r', db1)"
      and c: "create db1 now ref (H (generateOTP cfg rnd)) ltrs
                 (now + expirationMinutes cfg * 60000) (cfg_maxAttempts cfg) = Inr (row, otps s')"
      by (auto simp: OtpService_generateOTP_def Let_def
          split: option.splits sum.splits prod.splits if_splits)
    from c have db': "otps s' = db1 @ [row]"
      by (auto simp: create_def Let_def split: if_splits)
    from expire_existing [OF assms f u]
    have e: "\<And>x. x \<in> set db1 \<Longrightarrow> transactionReference x = ref \<Longrightarrow> \<not> is_live now x"
      "\<exists>x \<in> set db1. otp_id x = otp_id r \<and> status x = Expired"
      by blast+
    from e(2) have "\<exists>x \<in> set (otps s'). otp_id x = otp_id r \<and> status x = Expired"
      unfolding db' by auto
    moreover have "\<forall>x \<in> set (otps s'). transactionReference x = ref \<and> is_live now x \<longrightarrow>
        x = last (otps s')"
      unfolding db' using e(1) by auto
    ultimately show ?thesis by blast
  qed
  from generate_ok [OF assms] station_ok [OF assms] customer_ok [OF assms] sweep later issue
  show ?thesis by blast
qed

text \<open>The theorem on \<open>sys1\<close>: a second issue at 1000 expires \<open>row0\<close>.\<close>

theorem C8_one_live_per_reference_witness:
  "table_ok 1000 (otps sys1) \<and>
   findActiveByTransaction (otps sys1) 1000 ''WS-1'' = Some row0 \<and>
   otps (snd (OtpService_generateOTP otpDefaults (\<lambda>s. s) sys1 1000 0 ''WS-1'' 10)) =
     [row0\<lparr>status := Expired\<rparr>,
      \<lparr>otp_id = 2, transactionReference = ''WS-1'', otpHash = ''100000'', liters = 10,
       status = Active, stationId = None, attempts = 0, maxAttempts = 3, usedAt = None,
       verifiedAt = None, expiresAt = 601000, createdAt = 1000\<rparr>] \<and>
   table_ok 1000 (otps (snd (OtpService_generateOTP otpDefaults (\<lambda>s. s) sys1 1000 0 ''WS-1'' 10)))"
proof -
  have g: "generateOTP otpDefaults 0 = ''100000''" using generateOTP_examples by simp
  have c: "expirationMinutes otpDefaults = 10" "cfg_maxAttempts otpDefaults = 3"
    "cacheEnabled otpDefaults" "cacheTtlSeconds otpDefaults = 600"
    by (simp_all add: otpDefaults_def)
  have ok: "table_ok 1000 (otps sys1)"
    by (simp add: table_ok_def unique_ids_def one_live_per_reference_def sys1_def sys0_def)
  have f: "findActiveByTransaction (otps sys1) 1000 ''WS-1'' = Some row0"
    by (simp add: findActiveByTransaction_def is_live_def sys1_def sys0_def row0_def)
  have e: "otps (snd (OtpService_generateOTP otpDefaults (\<lambda>s. s) sys1 1000 0 ''WS-1'' 10)) =
     [row0\<lparr>status := Expired\<rparr>,
      \<lparr>otp_id = 2, transactionReference = ''WS-1'', otpHash = ''100000'', liters = 10,
       status = Active, stationId = None, attempts = 0, maxAttempts = 3, usedAt = None,
       verifiedAt = None, expiresAt = 601000, createdAt = 1000\<rparr>]"
    by (simp add: row0_def OtpService_generateOTP_def sys1_def sys0_def
        findActiveByTransaction_def is_live_def g c create_def decimal_10_2_ten next_id_def redis_setEx_def
        getCacheKey_def update_def update_by_id_def apply_updates_def no_updates_def Let_def)
  from C8_one_live_per_reference [OF ok, of otpDefaults "\<lambda>s. s" 0 "''WS-1''" 10] ok f e
  show ?thesis by simp
qed

section \<open>The payment callback\<close>












text \<open>
  A callback whose transaction date has 14 characters and is no date changes nothing:
  the update fails with 500.
\<close>

lemma callback_invalid_date:
  assumes "cb_resultCode cb = 0" and "cb_transactionDate cb = Some d"
    and "parseTransactionDate D now d = None"
    and "fits_TEXT (cb_checkoutRequestId cb)"
    and "find (\<lambda>t. m_checkoutRequestId t = Some (cb_checkoutRequestId cb))
           (mpesa_transactions s) = Some tx"
  shows "handleCallback cfg H D s now rnd cb =
           (Inl (AppError FailedToUpdateMpesaTransaction 500), s)"
  using assms by (simp add: handleCallback_def status_of_resultCode_def Let_def)






end
